theory Spec2Isabelle
  imports Main
begin

section \<open>Python strings\<close>

text \<open>
  A Python \<open>str\<close> is a sequence of Unicode code points; the chapter titles and the error
  messages of the parser are Cyrillic, so a string is modelled as the list of its code
  points and an ASCII literal is written \<open>ascii ''...''\<close>.
\<close>

type_synonym pystr = "nat list"

definition ascii :: "string \<Rightarrow> pystr" where
  "ascii s = map of_char s"

text \<open>The code points for which \<open>str.isspace\<close> holds: what \<open>str.strip()\<close> removes.\<close>

definition isspace :: "nat \<Rightarrow> bool" where
  "isspace c \<longleftrightarrow>
     (9 \<le> c \<and> c \<le> 13) \<or> (28 \<le> c \<and> c \<le> 32) \<or> c = 133 \<or> c = 160 \<or> c = 5760 \<or>
     (8192 \<le> c \<and> c \<le> 8202) \<or> c = 8232 \<or> c = 8233 \<or> c = 8239 \<or> c = 8287 \<or> c = 12288"

definition strip :: "pystr \<Rightarrow> pystr" where
  "strip s = rev (dropWhile isspace (rev (dropWhile isspace s)))"

text \<open>\<open>sep.join(xs)\<close>\<close>

fun join :: "pystr \<Rightarrow> pystr list \<Rightarrow> pystr" where
  "join sep [] = []"
| "join sep [x] = x"
| "join sep (x # y # ys) = x @ sep @ join sep (y # ys)"

text \<open>\<open>s.endswith(t)\<close>\<close>

definition endswith :: "pystr \<Rightarrow> pystr \<Rightarrow> bool" where
  "endswith s t \<longleftrightarrow> length t \<le> length s \<and> drop (length s - length t) s = t"

text \<open>\<open>str(n)\<close> for a non-negative integer: its decimal digits.\<close>

fun str_of_nat :: "nat \<Rightarrow> pystr" where
  "str_of_nat n = (if n < 10 then [48 + n] else str_of_nat (n div 10) @ [48 + n mod 10])"

declare str_of_nat.simps [simp del]

text \<open>Truthiness of an optional string (\<open>if el.text\<close>): neither \<open>None\<close> nor empty.\<close>

fun truthy :: "pystr option \<Rightarrow> bool" where
  "truthy None = False"
| "truthy (Some s) = (s \<noteq> [])"

section \<open>Element trees\<close>

text \<open>
  An \<open>xml.etree.ElementTree.Element\<close> as the parser builds it: the tag (\<open>{uri}local\<close>
  when namespaced), the text before the first child, the text after the end tag, and the
  children in document order. Attributes are never read by the parser code and are left
  out; comments and processing instructions are dropped by \<open>ET.fromstring\<close>.
\<close>

datatype element =
  Element (tag: pystr) (etext: "pystr option") (tail: "pystr option") (children: "element list")

text \<open>\<open>Element.itertext()\<close>: the text pieces of the subtree in document order.\<close>

fun itertext :: "element \<Rightarrow> pystr list" where
  "itertext (Element t x tl0 cs) =
     (if truthy x then [the x] else []) @
     concat (map (\<lambda>c. itertext c @ (if truthy (tail c) then [the (tail c)] else [])) cs)"

text \<open>\<open>"".join(e.itertext())\<close>\<close>

definition fulltext :: "element \<Rightarrow> pystr" where
  "fulltext e = concat (itertext e)"

text \<open>The proper descendants of an element in document order (what \<open>.//\<close> walks).\<close>

fun iter_desc :: "element \<Rightarrow> element list" where
  "iter_desc (Element t x tl0 cs) = concat (map (\<lambda>c. c # iter_desc c) cs)"

text \<open>
  How \<open>xml.etree.ElementPath\<close> matches the tag of an element against the tag of a path
  step. A step \<open>{*}name\<close> or \<open>{ns}*\<close> is a wildcard (\<open>_is_wildcard_tag\<close>) and is matched by
  \<open>_prepare_tag\<close>; any other step is compared for equality, after a leading \<open>{}\<close> is removed.
  The descendant step walks \<open>elem.iter(tag)\<close>, for which the tag \<open>*\<close> matches every element.
  (The tags of parsed elements are non-empty strings.)
\<close>

definition is_wildcard_tag :: "pystr \<Rightarrow> bool" where
  "is_wildcard_tag t \<longleftrightarrow> take 3 t = ascii ''{*}'' \<or> endswith t (ascii ''}*'')"

definition prepare_tag :: "pystr \<Rightarrow> pystr \<Rightarrow> bool" where
  "prepare_tag t el_tag =
     (if t = ascii ''{*}*'' then True
      else if t = ascii ''{}*'' then take 1 el_tag \<noteq> ascii ''{''
      else if take 3 t = ascii ''{*}''
      then (let suffix = drop 2 t
            in el_tag = drop 3 t \<or> drop (length el_tag - length suffix) el_tag = suffix)
      else (let ns_part = butlast t in take (length ns_part) el_tag = ns_part))"

definition child_match :: "pystr \<Rightarrow> pystr \<Rightarrow> bool" where
  "child_match t el_tag =
     (if is_wildcard_tag t then prepare_tag t el_tag
      else el_tag = (if take 2 t = ascii ''{}'' then drop 2 t else t))"

definition desc_match :: "pystr \<Rightarrow> pystr \<Rightarrow> bool" where
  "desc_match t el_tag =
     (if is_wildcard_tag t then prepare_tag t el_tag
      else (let t' = (if take 2 t = ascii ''{}'' then drop 2 t else t)
            in t' = ascii ''*'' \<or> el_tag = t'))"

text \<open>
  The four lookups of the parser, on the tag that the path step resolves to:
  \<open>e.findall("./T")\<close> and \<open>e.findall("T")\<close> (children), \<open>e.findall(".//T")\<close> (descendants),
  and \<open>find\<close> for the first match or \<open>None\<close>.
\<close>

definition findall_child :: "pystr \<Rightarrow> element \<Rightarrow> element list" where
  "findall_child t e = filter (\<lambda>c. child_match t (tag c)) (children e)"

definition findall_desc :: "pystr \<Rightarrow> element \<Rightarrow> element list" where
  "findall_desc t e = filter (\<lambda>c. desc_match t (tag c)) (iter_desc e)"

definition first_of :: "'a list \<Rightarrow> 'a option" where
  "first_of xs = (case xs of [] \<Rightarrow> None | x # _ \<Rightarrow> Some x)"

definition find_child :: "pystr \<Rightarrow> element \<Rightarrow> element option" where
  "find_child t e = first_of (findall_child t e)"

definition find_desc :: "pystr \<Rightarrow> element \<Rightarrow> element option" where
  "find_desc t e = first_of (findall_desc t e)"

text \<open>
  The namespace dictionary is either empty or \<open>{"fb": uri}\<close>: \<open>None\<close> or \<open>Some uri\<close>.
  A path step \<open>fb:name\<close> resolves to the tag \<open>{uri}name\<close>, a bare step to \<open>name\<close>.
\<close>

type_synonym namespace = "pystr option"

definition qname :: "namespace \<Rightarrow> string \<Rightarrow> pystr" where
  "qname ns name =
     (case ns of None \<Rightarrow> ascii name
      | Some uri \<Rightarrow> ascii ''{'' @ uri @ ascii ''}'' @ ascii name)"

section \<open>Chapters\<close>

record chapter_data =
  title :: pystr
  content :: pystr
  order :: nat

text \<open>The title text of \<open>_process_fb2_section\<close> before the fallback is applied.\<close>

definition chapter_title_text :: "element \<Rightarrow> namespace \<Rightarrow> pystr" where
  "chapter_title_text section ns =
     (case find_child (qname ns ''title'') section of
        None \<Rightarrow> []
      | Some title_elem \<Rightarrow>
          (let title_paragraphs = findall_desc (qname ns ''p'') title_elem in
           if title_paragraphs \<noteq> []
           then join (ascii '' '')
                  (map (\<lambda>p. strip (the (etext p))) (filter (\<lambda>p. truthy (etext p)) title_paragraphs))
           else strip (fulltext title_elem)))"

definition glava :: pystr where
  "glava = [1043, 1083, 1072, 1074, 1072, 32]"

definition content_paragraphs :: "element \<Rightarrow> namespace \<Rightarrow> element list" where
  "content_paragraphs section ns =
     filter (\<lambda>child. endswith (tag child) (ascii ''p'') \<or>
                     (ns \<noteq> None \<and> tag child = ascii ''{'' @ the ns @ ascii ''}p''))
       (children section)"

definition chapter_content_text :: "element \<Rightarrow> namespace \<Rightarrow> pystr" where
  "chapter_content_text section ns =
     join (ascii [CHR 0x0A, CHR 0x0A])
       (map (\<lambda>p. strip (fulltext p))
          (filter (\<lambda>p. strip (fulltext p) \<noteq> []) (content_paragraphs section ns)))"

definition process_fb2_section :: "element \<Rightarrow> namespace \<Rightarrow> nat \<Rightarrow> chapter_data option" where
  "process_fb2_section section ns ord =
     (let chapter_title = chapter_title_text section ns;
          chapter_title = (if chapter_title = [] then glava @ str_of_nat ord else chapter_title);
          chapter_content = chapter_content_text section ns
      in if strip chapter_content \<noteq> []
         then Some \<lparr>title = chapter_title, content = chapter_content, order = ord\<rparr>
         else None)"

text \<open>The candidate sections of a body: its child sections, or else all its descendant sections.\<close>

definition fb2_sections :: "element \<Rightarrow> namespace \<Rightarrow> element list" where
  "fb2_sections body ns =
     (let sections = findall_child (qname ns ''section'') body in
      if sections = [] then findall_desc (qname ns ''section'') body else sections)"

text \<open>The loop \<open>for idx, section in enumerate(sections, 1)\<close>, from index \<open>idx\<close> on.\<close>

fun chapters_from :: "namespace \<Rightarrow> nat \<Rightarrow> element list \<Rightarrow> chapter_data list" where
  "chapters_from ns idx [] = []"
| "chapters_from ns idx (section # rest) =
     (case process_fb2_section section ns idx of
        None \<Rightarrow> chapters_from ns (Suc idx) rest
      | Some chapter \<Rightarrow> chapter # chapters_from ns (Suc idx) rest)"

definition extract_fb2_chapters :: "element \<Rightarrow> namespace \<Rightarrow> chapter_data list" where
  "extract_fb2_chapters root ns =
     (case find_desc (qname ns ''body'') root of
        None \<Rightarrow> []
      | Some body \<Rightarrow> chapters_from ns 1 (fb2_sections body ns))"

section \<open>Metadata\<close>

record metadata =
  book_title :: pystr
  description :: pystr
  authors :: pystr
  genres :: pystr
  language :: pystr

record book_data = metadata +
  chapters :: "chapter_data list"

datatype error = ValueError pystr

text \<open>
  The two local helpers of \<open>_extract_fb2_metadata\<close>. Every call passes a single tag name
  as the path, which the helpers prefix with \<open>fb:\<close> under a namespace: a lookup among the
  children of the element.
\<close>

definition find_text :: "namespace \<Rightarrow> element \<Rightarrow> string \<Rightarrow> pystr \<Rightarrow> pystr" where
  "find_text ns element path dflt =
     (case find_child (qname ns path) element of
        None \<Rightarrow> dflt
      | Some found \<Rightarrow> if truthy (etext found) then strip (the (etext found)) else dflt)"

definition find_all_text :: "namespace \<Rightarrow> element \<Rightarrow> string \<Rightarrow> pystr" where
  "find_all_text ns element path =
     join (ascii '' '')
       (map (\<lambda>el. strip (the (etext el)))
          (filter (\<lambda>el. truthy (etext el)) (findall_child (qname ns path) element)))"

definition bez_nazvaniya :: pystr where
  "bez_nazvaniya = [1041, 1077, 1079, 32, 1085, 1072, 1079, 1074, 1072, 1085, 1080, 1103]"

definition no_title_info_msg :: pystr where
  "no_title_info_msg =
     [1053, 1077, 32, 1085, 1072, 1081, 1076, 1077, 1085, 1072, 32, 1089, 1077, 1082, 1094,
      1080, 1103, 32] @ ascii ''title-info'' @ [32, 1074, 32] @ ascii ''FB2'' @
     [32, 1092, 1072, 1081, 1083, 1077]"

definition author_name :: "namespace \<Rightarrow> element \<Rightarrow> pystr" where
  "author_name ns author =
     (let first_name = find_text ns author ''first-name'' [];
          last_name = find_text ns author ''last-name'' [];
          middle_name = find_text ns author ''middle-name'' []
      in join (ascii '' '') (filter (\<lambda>s. s \<noteq> []) [first_name, middle_name, last_name]))"

definition annotation_text :: "namespace \<Rightarrow> element \<Rightarrow> pystr" where
  "annotation_text ns title_info =
     (case find_desc (qname ns ''annotation'') title_info of
        None \<Rightarrow> []
      | Some annotation_elem \<Rightarrow>
          (let paragraphs = findall_desc (qname ns ''p'') annotation_elem in
           if paragraphs \<noteq> []
           then join [10] (map (\<lambda>p. strip (the (etext p))) (filter (\<lambda>p. truthy (etext p)) paragraphs))
           else strip (fulltext annotation_elem)))"

definition extract_fb2_metadata :: "element \<Rightarrow> namespace \<Rightarrow> error + metadata" where
  "extract_fb2_metadata root ns =
     (case find_desc (qname ns ''title-info'') root of
        None \<Rightarrow> Inl (ValueError no_title_info_msg)
      | Some title_info \<Rightarrow>
          (let authors_list =
                 filter (\<lambda>s. s \<noteq> [])
                   (map (author_name ns) (findall_desc (qname ns ''author'') title_info))
           in Inr \<lparr>book_title = find_text ns title_info ''book-title'' bez_nazvaniya,
                   description = annotation_text ns title_info,
                   authors = (if authors_list \<noteq> [] then join (ascii '', '') authors_list else []),
                   genres = find_all_text ns title_info ''genre'',
                   language = find_text ns title_info ''lang'' (ascii ''ru'')\<rparr>))"

section \<open>The pipeline\<close>

definition corrupt_msg :: pystr where
  "corrupt_msg =
     ascii ''FB2'' @
     [32, 1092, 1072, 1081, 1083, 32, 1087, 1086, 1074, 1088, 1077, 1078, 1076, 1077, 1085, 58,
      32, 1086, 1090, 1089, 1091, 1090, 1089, 1090, 1074, 1091, 1077, 1090, 32, 1101, 1083,
      1077, 1084, 1077, 1085, 1090, 32]"

definition parse_error_msg :: pystr where
  "parse_error_msg =
     [1054, 1096, 1080, 1073, 1082, 1072, 32, 1087, 1088, 1080, 32, 1087, 1072, 1088, 1089,
      1080, 1085, 1075, 1077, 32] @ ascii ''FB2: ''"

definition bad_xml_msg :: pystr where
  "bad_xml_msg =
     [1053, 1077, 1082, 1086, 1088, 1088, 1077, 1082, 1090, 1085, 1099, 1081, 32] @
     ascii ''XML'' @ [32, 1092, 1086, 1088, 1084, 1072, 1090, 58, 32]"

text \<open>The loop of \<open>_validate_fb2_structure\<close> over the required elements: the first missing one raises.\<close>

fun validate_required :: "element \<Rightarrow> namespace \<Rightarrow> string list \<Rightarrow> error + unit" where
  "validate_required root ns [] = Inr ()"
| "validate_required root ns (element_name # rest) =
     (if find_desc (qname ns element_name) root = None
      then Inl (ValueError (corrupt_msg @ ascii element_name))
      else validate_required root ns rest)"

definition validate_fb2_structure :: "element \<Rightarrow> namespace \<Rightarrow> error + unit" where
  "validate_fb2_structure root ns = validate_required root ns [''title-info'', ''body'']"

text \<open>\<open>s.find(c)\<close> for one character, and the slice \<open>s[1 : k]\<close> with Python's negative stop.\<close>

definition str_find :: "pystr \<Rightarrow> nat \<Rightarrow> int" where
  "str_find s c = (if c \<in> set s then int (length (takeWhile (\<lambda>x. x \<noteq> c) s)) else - 1)"

definition slice_from_1 :: "pystr \<Rightarrow> int \<Rightarrow> pystr" where
  "slice_from_1 s k =
     (let stop = (if k < 0 then max 0 (int (length s) + k) else min k (int (length s)))
      in drop 1 (take (nat stop) s))"

definition root_namespace :: "element \<Rightarrow> namespace" where
  "root_namespace root =
     (if take 1 (tag root) = ascii ''{''
      then Some (slice_from_1 (tag root) (str_find (tag root) 125))
      else None)"

text \<open>The body of the \<open>try\<close> block of \<open>_parse_fb2_content\<close>, after \<open>ET.fromstring\<close>.\<close>

definition parse_fb2_tree :: "element \<Rightarrow> error + book_data" where
  "parse_fb2_tree root =
     (let ns = root_namespace root in
      case validate_fb2_structure root ns of
        Inl e \<Rightarrow> Inl e
      | Inr _ \<Rightarrow>
          (case extract_fb2_metadata root ns of
             Inl e \<Rightarrow> Inl e
           | Inr md \<Rightarrow> Inr (metadata.extend md \<lparr>chapters = extract_fb2_chapters root ns\<rparr>)))"

text \<open>
  \<open>_parse_fb2_content\<close>, on the outcome of \<open>ET.fromstring(file_content)\<close>: the root
  element, or the exception raised, with its message: an \<open>ET.ParseError\<close> for markup that is
  not well formed, or another exception (a \<open>LookupError\<close> for an unknown encoding, a
  \<open>ValueError\<close> for a multi-byte encoding). The first handler catches the \<open>ParseError\<close>,
  the second everything else, also the \<open>ValueError\<close> of the validator; both re-raise a
  \<open>ValueError\<close> that prefixes the message of what they caught. Python's recursion limit
  is not modelled.
\<close>

datatype fromstring_error = ParseError pystr | OtherException pystr

definition parse_fb2_content :: "fromstring_error + element \<Rightarrow> error + book_data" where
  "parse_fb2_content parsed =
     (case parsed of
        Inl (ParseError e) \<Rightarrow> Inl (ValueError (bad_xml_msg @ e))
      | Inl (OtherException e) \<Rightarrow> Inl (ValueError (parse_error_msg @ e))
      | Inr root \<Rightarrow>
          (case parse_fb2_tree root of
             Inl (ValueError m) \<Rightarrow> Inl (ValueError (parse_error_msg @ m))
           | Inr book \<Rightarrow> Inr book))"

section \<open>Notions the properties are stated with\<close>

text \<open>
  The candidate sections of a document: the list \<open>sections\<close> that the loop of
  \<open>_extract_fb2_chapters\<close> enumerates (none when there is no body).
\<close>

definition candidate_sections :: "element \<Rightarrow> namespace \<Rightarrow> element list" where
  "candidate_sections root ns =
     (case find_desc (qname ns ''body'') root of
        None \<Rightarrow> []
      | Some body \<Rightarrow> fb2_sections body ns)"

text \<open>A section is emitted when \<open>_process_fb2_section\<close> returns a chapter for it.\<close>

definition emitted :: "element \<Rightarrow> namespace \<Rightarrow> bool" where
  "emitted section ns \<longleftrightarrow> strip (chapter_content_text section ns) \<noteq> []"

text \<open>
  The elements that a name refers to in a document. Without a namespace, those with that
  tag; under the namespace \<open>uri\<close> of the root, those with the tag \<open>{uri}name\<close>; and
  when that namespace is \<open>*\<close>, which the path language reads as a wildcard, those with
  that local name in any namespace or in none.
\<close>

definition is_named :: "namespace \<Rightarrow> string \<Rightarrow> pystr \<Rightarrow> bool" where
  "is_named ns name t \<longleftrightarrow>
     (case ns of
        None \<Rightarrow> t = ascii name
      | Some uri \<Rightarrow>
          if uri = ascii ''*'' then t = ascii name \<or> endswith t (ascii ''}'' @ ascii name)
          else if uri = [] then t = ascii name
          else t = ascii ''{'' @ uri @ ascii ''}'' @ ascii name)"

text \<open>The names the parser looks up contain no brace and no star.\<close>

definition plain :: "pystr \<Rightarrow> bool" where
  "plain n \<longleftrightarrow> n \<noteq> [] \<and> 123 \<notin> set n \<and> 125 \<notin> set n \<and> 42 \<notin> set n"

text \<open>An element of that name occurs below the root; or anywhere in the tree, the root included.\<close>

definition has_below :: "namespace \<Rightarrow> string \<Rightarrow> element \<Rightarrow> bool" where
  "has_below ns name root \<longleftrightarrow> (\<exists>d\<in>set (iter_desc root). is_named ns name (tag d))"

definition has_element :: "namespace \<Rightarrow> string \<Rightarrow> element \<Rightarrow> bool" where
  "has_element ns name root \<longleftrightarrow> is_named ns name (tag root) \<or> has_below ns name root"

text \<open>Proper descendants, as a relation: \<open>is_desc d e\<close> when \<open>d\<close> lies below \<open>e\<close> at any depth.\<close>

inductive is_desc :: "element \<Rightarrow> element \<Rightarrow> bool" where
  child: "c \<in> set (children e) \<Longrightarrow> is_desc c e"
| deeper: "is_desc d c \<Longrightarrow> c \<in> set (children e) \<Longrightarrow> is_desc d e"

subsection \<open>Positions\<close>

text \<open>
  Two equal subtrees at different places of a document are different elements for Python.
  A position is the list of child indices from the root; \<open>desc_paths\<close> lists the positions
  of the proper descendants in document order, as \<open>iter_desc\<close> lists the elements.
\<close>

fun subtree :: "element \<Rightarrow> nat list \<Rightarrow> element option" where
  "subtree e [] = Some e"
| "subtree e (i # p) = (if i < length (children e) then subtree (children e ! i) p else None)"

fun desc_paths :: "element \<Rightarrow> nat list list"
  and paths_from :: "nat \<Rightarrow> element list \<Rightarrow> nat list list" where
  "desc_paths (Element t x tl0 cs) = paths_from 0 cs"
| "paths_from i [] = []"
| "paths_from i (c # cs) = ([i] # map ((#) i) (desc_paths c)) @ paths_from (Suc i) cs"

text \<open>Document order on positions: an element comes before its descendants and its later siblings.\<close>

fun doc_before :: "nat list \<Rightarrow> nat list \<Rightarrow> bool" where
  "doc_before [] [] = False"
| "doc_before [] (j # q) = True"
| "doc_before (i # p) [] = False"
| "doc_before (i # p) (j # q) = (i < j \<or> (i = j \<and> doc_before p q))"

definition tag_at :: "element \<Rightarrow> nat list \<Rightarrow> pystr option" where
  "tag_at root p = map_option tag (subtree root p)"

definition named_at :: "element \<Rightarrow> namespace \<Rightarrow> string \<Rightarrow> nat list \<Rightarrow> bool" where
  "named_at root ns name p =
     (case subtree root p of None \<Rightarrow> False | Some e \<Rightarrow> is_named ns name (tag e))"

text \<open>The first position, in document order, of a body element below the root.\<close>

definition first_body_path :: "element \<Rightarrow> namespace \<Rightarrow> nat list option" where
  "first_body_path root ns = first_of (filter (named_at root ns ''body'') (desc_paths root))"

text \<open>
  The positions, relative to a body, of its child sections, or else of all the sections
  below it.
\<close>

definition section_paths :: "element \<Rightarrow> namespace \<Rightarrow> nat list list" where
  "section_paths body ns =
     (let direct = filter (named_at body ns ''section'')
                     (map (\<lambda>i. [i]) [0..<length (children body)])
      in if direct = []
         then filter (named_at body ns ''section'') (desc_paths body)
         else direct)"

definition candidate_paths :: "element \<Rightarrow> namespace \<Rightarrow> nat list list" where
  "candidate_paths root ns =
     (case first_body_path root ns of
        None \<Rightarrow> []
      | Some pb \<Rightarrow>
          (case subtree root pb of
             None \<Rightarrow> []
           | Some body \<Rightarrow> map ((@) pb) (section_paths body ns)))"

subsection \<open>Example documents\<close>

definition el :: "string \<Rightarrow> element list \<Rightarrow> element" where
  "el t cs = Element (ascii t) None None cs"

definition leaf :: "string \<Rightarrow> string \<Rightarrow> element" where
  "leaf t x = Element (ascii t) (Some (ascii x)) None []"

definition fb2 :: "element list \<Rightarrow> element list \<Rightarrow> element" where
  "fb2 info body_children =
     el ''FictionBook'' [el ''description'' [el ''title-info'' info], el ''body'' body_children]"

text \<open>One section with a title and one paragraph (the first scenario of the specification).\<close>

definition doc_sample :: element where
  "doc_sample =
     fb2 [leaf ''book-title'' ''Sample'']
       [el ''section'' [el ''title'' [leaf ''p'' ''Intro''], leaf ''p'' ''Hello world.'']]"

text \<open>Two sections without titles; the first has no paragraph.\<close>

definition doc_gap :: element where
  "doc_gap =
     fb2 [leaf ''book-title'' ''Sample'']
       [el ''section'' [el ''empty-line'' []], el ''section'' [leaf ''p'' ''Hello'']]"

text \<open>Two sections without titles, each with a paragraph.\<close>

definition doc_two :: element where
  "doc_two =
     fb2 [leaf ''book-title'' ''Sample'']
       [el ''section'' [leaf ''p'' ''One''], el ''section'' [leaf ''p'' ''Two'']]"

text \<open>A section whose title holds two paragraphs of blank text.\<close>

definition doc_blank_title :: element where
  "doc_blank_title =
     fb2 [leaf ''book-title'' ''Sample'']
       [el ''section'' [el ''title'' [leaf ''p'' '' '', leaf ''p'' '' ''], leaf ''p'' ''x'']]"

text \<open>A body without child sections, with two sections two levels down (the third scenario).\<close>

definition body_nested :: element where
  "body_nested =
     el ''body'' [el ''part'' [el ''group'' [el ''section'' [leaf ''p'' ''A''],
                                             el ''section'' [leaf ''p'' ''B'']]]]"

definition doc_nested :: element where
  "doc_nested =
     el ''FictionBook''
       [el ''description'' [el ''title-info'' [leaf ''book-title'' ''Sample'']], body_nested]"

text \<open>A body with a child section that itself holds a section.\<close>

definition body_direct :: element where
  "body_direct =
     el ''body'' [el ''section'' [leaf ''p'' ''A'', el ''section'' [leaf ''p'' ''B'']]]"

text \<open>A book title of blank text.\<close>

definition doc_blank_book_title :: element where
  "doc_blank_book_title =
     fb2 [leaf ''book-title'' ''  ''] [el ''section'' [leaf ''p'' ''Hello'']]"

text \<open>A language element, padded with blanks.\<close>

definition doc_lang :: element where
  "doc_lang =
     fb2 [leaf ''book-title'' ''Sample'', leaf ''lang'' '' en '']
       [el ''section'' [leaf ''p'' ''Hello'']]"

text \<open>Genres among the children of title-info (one without text, one repeated) and one deeper.\<close>

definition doc_genres :: element where
  "doc_genres =
     fb2 [leaf ''genre'' '' prose '', el ''genre'' [], leaf ''genre'' ''sf'',
          leaf ''genre'' ''prose'', el ''extra'' [leaf ''genre'' ''poetry'']]
       [el ''section'' [leaf ''p'' ''Hello'']]"

definition doc_deep_genre :: element where
  "doc_deep_genre =
     fb2 [leaf ''book-title'' ''Sample'', el ''extra'' [leaf ''genre'' ''poetry'']]
       [el ''section'' [leaf ''p'' ''Hello'']]"

text \<open>Documents without title-info (the fourth scenario) and without body.\<close>

definition doc_no_title_info :: element where
  "doc_no_title_info =
     el ''FictionBook'' [el ''description'' [], el ''body'' [el ''section'' [leaf ''p'' ''Hello'']]]"

definition doc_no_body :: element where
  "doc_no_body =
     el ''FictionBook'' [el ''description'' [el ''title-info'' [leaf ''book-title'' ''Sample'']]]"

text \<open>A main body followed by a notes body; and a body nested in the first body.\<close>

definition doc_notes :: element where
  "doc_notes =
     el ''FictionBook''
       [el ''description'' [el ''title-info'' [leaf ''book-title'' ''Sample'']],
        el ''body'' [el ''section'' [leaf ''p'' ''Main'']],
        el ''body'' [el ''section'' [leaf ''p'' ''Note'']]]"

definition doc_body_in_body :: element where
  "doc_body_in_body =
     el ''FictionBook''
       [el ''description'' [el ''title-info'' [leaf ''book-title'' ''Sample'']],
        el ''body'' [el ''cite'' [el ''body'' [el ''section'' [leaf ''p'' ''Inner'']]]]]"

text \<open>The first scenario in the FictionBook namespace, and a paragraph with inline markup.\<close>

definition fb_uri :: pystr where
  "fb_uri = ascii ''http://www.gribuser.ru/xml/fictionbook/2.0''"

definition nel :: "string \<Rightarrow> element list \<Rightarrow> element" where
  "nel t cs = Element (ascii ''{'' @ fb_uri @ ascii ''}'' @ ascii t) None None cs"

definition nleaf :: "string \<Rightarrow> string \<Rightarrow> element" where
  "nleaf t x = Element (ascii ''{'' @ fb_uri @ ascii ''}'' @ ascii t) (Some (ascii x)) None []"

definition doc_sample_ns :: element where
  "doc_sample_ns =
     nel ''FictionBook''
       [nel ''description'' [nel ''title-info'' [nleaf ''book-title'' ''Sample'']],
        nel ''body''
          [nel ''section'' [nel ''title'' [nleaf ''p'' ''Intro''], nleaf ''p'' ''Hello world.'']]]"

definition p_inline :: element where
  "p_inline =
     Element (ascii ''p'') (Some (ascii ''Hello '')) None
       [Element (ascii ''strong'') (Some (ascii ''bold'')) (Some (ascii '' world '')) []]"

text \<open>A document whose root element is itself named title-info, without a body.\<close>

definition doc_root_title_info :: element where
  "doc_root_title_info = el ''title-info'' [leaf ''book-title'' ''Sample'']"

text \<open>Two language elements, the first one empty.\<close>

definition doc_two_lang :: element where
  "doc_two_lang =
     fb2 [leaf ''book-title'' ''Sample'', el ''lang'' [], leaf ''lang'' ''de'']
       [el ''section'' [leaf ''p'' ''Hello'']]"

text \<open>A section without a paragraph, whose children have tags that end in the letter p.\<close>

definition doc_no_paragraph :: element where
  "doc_no_paragraph =
     fb2 [leaf ''book-title'' ''Sample'']
       [el ''section'' [leaf ''sup'' ''1'', leaf ''stamp'' ''2'']]"

text \<open>
  A document in the namespace \<open>*\<close>, with elements of another namespace: title-info and
  the first body are in the namespace \<open>other\<close>.
\<close>

definition oel :: "string \<Rightarrow> string \<Rightarrow> element list \<Rightarrow> element" where
  "oel uri t cs = Element (ascii ''{'' @ ascii uri @ ascii ''}'' @ ascii t) None None cs"

definition oleaf :: "string \<Rightarrow> string \<Rightarrow> string \<Rightarrow> element" where
  "oleaf uri t x = Element (ascii ''{'' @ ascii uri @ ascii ''}'' @ ascii t) (Some (ascii x)) None []"

definition doc_star :: element where
  "doc_star =
     oel ''*'' ''FictionBook''
       [oel ''*'' ''description''
          [oel ''other'' ''title-info''
             [oleaf ''other'' ''genre'' ''x'', oleaf ''*'' ''genre'' ''y'',
              oel ''other'' ''lang'' [], oleaf ''*'' ''lang'' ''de'']],
        oel ''other'' ''body'' [oel ''other'' ''section'' [oleaf ''other'' ''p'' ''A'']],
        oel ''*'' ''body'' [oel ''*'' ''section'' [oleaf ''*'' ''p'' ''B'']]]"

section \<open>Basic facts\<close>

subsection \<open>Strings\<close>

lemma strip_eq_Nil_iff: "strip s = [] \<longleftrightarrow> (\<forall>c\<in>set s. isspace c)"
proof -
  have "(\<forall>x\<in>set (dropWhile isspace s). isspace x) \<longleftrightarrow> (\<forall>x\<in>set s. isspace x)"
  proof
    assume a: "\<forall>x\<in>set (dropWhile isspace s). isspace x"
    have "dropWhile isspace s = []"
    proof (rule ccontr)
      assume n: "dropWhile isspace s \<noteq> []"
      then have "\<not> isspace (hd (dropWhile isspace s))" by (rule hd_dropWhile)
      moreover have "hd (dropWhile isspace s) \<in> set (dropWhile isspace s)" using n by simp
      ultimately show False using a by blast
    qed
    then show "\<forall>x\<in>set s. isspace x" by simp
  next
    assume "\<forall>x\<in>set s. isspace x"
    then show "\<forall>x\<in>set (dropWhile isspace s). isspace x" by (meson set_dropWhileD)
  qed
  then show ?thesis by (simp add: strip_def)
qed

lemma strip_nonspace: "strip s \<noteq> [] \<Longrightarrow> \<exists>c\<in>set (strip s). \<not> isspace c"
proof -
  assume n: "strip s \<noteq> []"
  let ?d = "dropWhile isspace (rev (dropWhile isspace s))"
  from n have d: "?d \<noteq> []" by (simp add: strip_def)
  then have "\<not> isspace (hd ?d)" by (rule hd_dropWhile)
  moreover have "hd ?d \<in> set (strip s)" using d by (simp add: strip_def)
  ultimately show ?thesis by blast
qed

lemma set_join_piece: "x \<in> set xs \<Longrightarrow> set x \<subseteq> set (join sep xs)"
  by (induction sep xs rule: join.induct) auto

lemma set_join_subset: "set (join sep xs) \<subseteq> set sep \<union> (\<Union>x\<in>set xs. set x)"
  by (induction sep xs rule: join.induct) auto

lemma join_Nil_pieces: "\<forall>x\<in>set xs. x \<noteq> [] \<Longrightarrow> join sep xs = [] \<longleftrightarrow> xs = []"
  by (induction sep xs rule: join.induct) auto

subsection \<open>Sections and chapters\<close>

lemma content_empty_iff:
  "strip (chapter_content_text s ns) = [] \<longleftrightarrow>
     (\<forall>p\<in>set (content_paragraphs s ns). strip (fulltext p) = [])"
proof
  assume a: "strip (chapter_content_text s ns) = []"
  show "\<forall>p\<in>set (content_paragraphs s ns). strip (fulltext p) = []"
  proof (rule ccontr)
    assume "\<not> (\<forall>p\<in>set (content_paragraphs s ns). strip (fulltext p) = [])"
    then obtain p where p: "p \<in> set (content_paragraphs s ns)" "strip (fulltext p) \<noteq> []" by blast
    then obtain c where c: "c \<in> set (strip (fulltext p))" "\<not> isspace c"
      using strip_nonspace by blast
    have "strip (fulltext p) \<in> set (map (\<lambda>p. strip (fulltext p))
          (filter (\<lambda>p. strip (fulltext p) \<noteq> []) (content_paragraphs s ns)))"
      using p by auto
    then have "c \<in> set (chapter_content_text s ns)"
      unfolding chapter_content_text_def using c(1) set_join_piece by blast
    then show False using a c(2) by (simp add: strip_eq_Nil_iff)
  qed
next
  assume "\<forall>p\<in>set (content_paragraphs s ns). strip (fulltext p) = []"
  then have "filter (\<lambda>p. strip (fulltext p) \<noteq> []) (content_paragraphs s ns) = []"
    by (simp add: filter_empty_conv)
  then show "strip (chapter_content_text s ns) = []"
    by (simp add: chapter_content_text_def strip_def)
qed

lemma content_Nil_iff:
  "chapter_content_text s ns = [] \<longleftrightarrow> strip (chapter_content_text s ns) = []"
proof
  assume "chapter_content_text s ns = []" then show "strip (chapter_content_text s ns) = []"
    by (simp add: strip_def)
next
  assume a: "strip (chapter_content_text s ns) = []"
  then have "filter (\<lambda>p. strip (fulltext p) \<noteq> []) (content_paragraphs s ns) = []"
    by (simp add: content_empty_iff filter_empty_conv)
  then show "chapter_content_text s ns = []" by (simp add: chapter_content_text_def)
qed

lemma nn_space: "\<forall>c\<in>set (ascii [CHR 0x0A, CHR 0x0A]). isspace c"
  by (simp add: ascii_def isspace_def)

lemma joined_fulltext_empty_iff:
  "strip (join (ascii [CHR 0x0A, CHR 0x0A]) (map fulltext ps)) = [] \<longleftrightarrow>
     (\<forall>p\<in>set ps. strip (fulltext p) = [])"
proof
  assume a: "strip (join (ascii [CHR 0x0A, CHR 0x0A]) (map fulltext ps)) = []"
  show "\<forall>p\<in>set ps. strip (fulltext p) = []"
  proof
    fix p assume "p \<in> set ps"
    then have "set (fulltext p) \<subseteq> set (join (ascii [CHR 0x0A, CHR 0x0A]) (map fulltext ps))"
      by (intro set_join_piece) simp
    then show "strip (fulltext p) = []" using a by (auto simp: strip_eq_Nil_iff)
  qed
next
  assume a: "\<forall>p\<in>set ps. strip (fulltext p) = []"
  have "set (join (ascii [CHR 0x0A, CHR 0x0A]) (map fulltext ps))
          \<subseteq> set (ascii [CHR 0x0A, CHR 0x0A]) \<union> (\<Union>x\<in>set (map fulltext ps). set x)"
    by (rule set_join_subset)
  then show "strip (join (ascii [CHR 0x0A, CHR 0x0A]) (map fulltext ps)) = []"
    using a nn_space unfolding strip_eq_Nil_iff by fastforce
qed

lemma process_Some_iff: "process_fb2_section s ns k \<noteq> None \<longleftrightarrow> emitted s ns"
  by (simp add: process_fb2_section_def emitted_def Let_def)

lemma process_SomeD:
  "process_fb2_section s ns k = Some c \<Longrightarrow>
     order c = k \<and> content c = chapter_content_text s ns \<and>
     title c = (if chapter_title_text s ns = [] then glava @ str_of_nat k else chapter_title_text s ns)"
  by (auto simp: process_fb2_section_def Let_def split: if_splits)

lemma order_chapters_from:
  "map order (chapters_from ns k S) =
     map (\<lambda>i. k + i) (filter (\<lambda>i. emitted (S ! i) ns) [0..<length S])"
proof (induction S arbitrary: k)
  case Nil then show ?case by simp
next
  case (Cons s S)
  have upt: "[0..<Suc (length S)] = 0 # map Suc [0..<length S]"
    by (simp add: upt_conv_Cons map_Suc_upt del: upt_Suc)
  show ?case
  proof (cases "process_fb2_section s ns k")
    case None
    then have "\<not> emitted s ns" using process_Some_iff by blast
    then show ?thesis using None Cons.IH[of "Suc k"]
      by (simp add: upt filter_map comp_def del: upt_Suc)
  next
    case (Some c)
    then have "emitted s ns" using process_Some_iff by blast
    moreover have "order c = k" using Some process_SomeD by blast
    ultimately show ?thesis using Some Cons.IH[of "Suc k"]
      by (simp add: upt filter_map comp_def del: upt_Suc)
  qed
qed

lemma sorted_orders: "sorted_wrt (<) (map order (chapters_from ns k S))"
  unfolding order_chapters_from
  by (simp add: sorted_wrt_map sorted_wrt_filter)

lemma content_chapters_from:
  "map content (chapters_from ns k S) =
     map (\<lambda>s. chapter_content_text s ns) (filter (\<lambda>s. emitted s ns) S)"
proof (induction S arbitrary: k)
  case Nil
  then show ?case by simp
next
  case (Cons s S)
  show ?case
  proof (cases "process_fb2_section s ns k")
    case None
    then have "\<not> emitted s ns" using process_Some_iff by blast
    then show ?thesis using None Cons.IH[of "Suc k"] by simp
  next
    case (Some c)
    then have "emitted s ns" using process_Some_iff by blast
    moreover have "content c = chapter_content_text s ns" using Some process_SomeD by blast
    ultimately show ?thesis using Some Cons.IH[of "Suc k"] by simp
  qed
qed

lemma extract_candidates:
  "extract_fb2_chapters root ns = chapters_from ns 1 (candidate_sections root ns)"
  by (simp add: extract_fb2_chapters_def candidate_sections_def split: option.splits)

lemma parse_fb2_content_chapters:
  "parse_fb2_content (Inr root) = Inr book \<Longrightarrow>
     chapters book = extract_fb2_chapters root (root_namespace root)"
  by (auto simp: parse_fb2_content_def parse_fb2_tree_def Let_def metadata.extend_def
           split: sum.splits error.splits)

subsection \<open>Tag matching\<close>

lemma ascii_consts:
  "ascii ''{'' = [123]" "ascii ''}'' = [125]" "ascii ''*'' = [42]" "ascii ''{*}'' = [123, 42, 125]"
  "ascii ''}*'' = [125, 42]" "ascii ''{}'' = [123, 125]" "ascii ''{*}*'' = [123, 42, 125, 42]"
  "ascii ''{}*'' = [123, 125, 42]"
  by (simp_all add: ascii_def)

lemma root_namespace_no_brace:
  assumes "root_namespace root = Some uri"
  shows "125 \<notin> set uri"
proof (cases "125 \<in> set (tag root)")
  case True
  have "uri = drop 1 (take (length (takeWhile (\<lambda>x. x \<noteq> 125) (tag root))) (tag root))"
    using assms True
    by (simp add: root_namespace_def slice_from_1_def str_find_def Let_def min_def
          length_takeWhile_le split: if_splits)
  then have "set uri \<subseteq> set (takeWhile (\<lambda>x. x \<noteq> 125) (tag root))"
    by (metis set_drop_subset takeWhile_eq_take)
  then show ?thesis by (auto dest: set_takeWhileD)
next
  case False
  have "set uri \<subseteq> set (tag root)"
    using assms False
    by (auto simp: root_namespace_def slice_from_1_def str_find_def Let_def
          split: if_splits dest: in_set_dropD in_set_takeD)
  then show ?thesis using False by blast
qed

lemma not_endswith_star: "plain n \<Longrightarrow> \<not> endswith (xs @ n) [125, 42]"
proof
  assume p: "plain n" and e: "endswith (xs @ n) [125, 42]"
  define s where "s = xs @ n"
  from p have n: "n \<noteq> []" by (simp add: plain_def)
  from e have l: "2 \<le> length s" and d: "drop (length s - 2) s = [125, 42]"
    unfolding s_def [symmetric] by (simp_all add: endswith_def numeral_2_eq_2)
  have "last (drop (length s - 2) s) = last s"
    using l by (intro last_drop) simp
  then have "last s = 42" using d by simp
  then have "last n = 42" using n by (simp add: s_def)
  then have "42 \<in> set n" using n last_in_set by metis
  then show False using p by (simp add: plain_def)
qed

lemma take3_star:
  "125 \<notin> set uri \<Longrightarrow> take 3 (123 # uri @ 125 # n) = [123, 42, 125::nat] \<longleftrightarrow> uri = [42]"
  by (cases uri; cases "tl uri") auto

lemma take2_empty:
  "125 \<notin> set uri \<Longrightarrow> take 2 (123 # uri @ 125 # n) = [123, 125::nat] \<longleftrightarrow> uri = []"
  by (cases uri) auto

lemma plain_facts:
  assumes "plain n"
  shows "take 3 n \<noteq> [123, 42, 125]" "take 2 n \<noteq> [123, 125]" "n \<noteq> [42]"
    "\<not> endswith n [125, 42]"
proof -
  from assms obtain a m where n: "n = a # m" "a \<noteq> 123" "42 \<notin> set n"
    by (cases n) (auto simp: plain_def)
  show "take 3 n \<noteq> [123, 42, 125]" "take 2 n \<noteq> [123, 125]" "n \<noteq> [42]"
    using n by auto
  show "\<not> endswith n [125, 42]" using not_endswith_star [OF assms, of "[]"] by simp
qed

lemma star_target:
  assumes "plain n"
  shows "is_wildcard_tag (123 # 42 # 125 # n)"
    and "prepare_tag (123 # 42 # 125 # n) t \<longleftrightarrow> t = n \<or> endswith t (125 # n)"
proof -
  show "is_wildcard_tag (123 # 42 # 125 # n)"
    by (simp add: is_wildcard_tag_def ascii_consts)
  from assms have n: "n \<noteq> [42]" "n \<noteq> []" using plain_facts(3) by (auto simp: plain_def)
  have "drop (length t - Suc (length n)) t = 125 # n \<longleftrightarrow> endswith t (125 # n)"
  proof
    assume d: "drop (length t - Suc (length n)) t = 125 # n"
    then have "length (drop (length t - Suc (length n)) t) = Suc (length n)" by simp
    then have "Suc (length n) \<le> length t" by simp
    then show "endswith t (125 # n)" using d by (simp add: endswith_def)
  next
    assume "endswith t (125 # n)"
    then show "drop (length t - Suc (length n)) t = 125 # n" by (simp add: endswith_def)
  qed
  then show "prepare_tag (123 # 42 # 125 # n) t \<longleftrightarrow> t = n \<or> endswith t (125 # n)"
    using n by (simp add: prepare_tag_def ascii_consts Let_def)
qed

lemma match_is_named:
  assumes "plain (ascii name)" and "\<forall>uri. ns = Some uri \<longrightarrow> 125 \<notin> set uri"
  shows "child_match (qname ns name) t = is_named ns name t"
    and "desc_match (qname ns name) t = is_named ns name t"
proof -
  let ?n = "ascii name"
  note pf = plain_facts [OF assms(1)]
  have "child_match (qname ns name) t = is_named ns name t \<and>
        desc_match (qname ns name) t = is_named ns name t"
  proof (cases ns)
    case None
    then show ?thesis using pf
      by (auto simp: qname_def is_named_def child_match_def desc_match_def is_wildcard_tag_def
            ascii_consts Let_def)
  next
    case (Some uri)
    then have b: "125 \<notin> set uri" using assms(2) by blast
    have q: "qname (Some uri) name = 123 # uri @ 125 # ?n"
      by (simp add: qname_def ascii_consts)
    have ne: "\<not> endswith (123 # uri @ 125 # ?n) [125, 42]"
      using not_endswith_star [OF assms(1), of "123 # uri @ [125]"] by simp
    show ?thesis
    proof (cases "uri = [42]")
      case True
      then show ?thesis
        using star_target(1) [OF assms(1)] star_target(2) [OF assms(1), of t]
        unfolding Some q
        by (simp add: is_named_def child_match_def desc_match_def ascii_consts)
    next
      case False
      then have w: "\<not> is_wildcard_tag (123 # uri @ 125 # ?n)"
        using ne take3_star [OF b, of ?n] by (simp add: is_wildcard_tag_def ascii_consts)
      have star: "123 # uri @ 125 # ?n \<noteq> [42]" "?n \<noteq> [42]" using pf by auto
      show ?thesis
        using False w star take2_empty [OF b, of ?n]
        unfolding Some q
        by (auto simp: is_named_def child_match_def desc_match_def ascii_consts Let_def)
    qed
  qed
  then show "child_match (qname ns name) t = is_named ns name t"
    and "desc_match (qname ns name) t = is_named ns name t" by simp_all
qed

lemma plain_names:
  "plain (ascii ''title-info'')" "plain (ascii ''body'')" "plain (ascii ''section'')"
  "plain (ascii ''genre'')" "plain (ascii ''lang'')" "plain (ascii ''book-title'')"
  by (simp_all add: plain_def ascii_def)

lemma brace_free:
  "ns = root_namespace root \<Longrightarrow> \<forall>uri. ns = Some uri \<longrightarrow> 125 \<notin> set uri"
  using root_namespace_no_brace by metis

lemma findall_child_named:
  assumes "plain (ascii name)" and "ns = root_namespace root"
  shows "findall_child (qname ns name) e = filter (\<lambda>c. is_named ns name (tag c)) (children e)"
  by (simp add: findall_child_def match_is_named(1) [OF assms(1) brace_free [OF assms(2)]])

lemma findall_desc_named:
  assumes "plain (ascii name)" and "ns = root_namespace root"
  shows "findall_desc (qname ns name) e = filter (\<lambda>d. is_named ns name (tag d)) (iter_desc e)"
  by (simp add: findall_desc_def match_is_named(2) [OF assms(1) brace_free [OF assms(2)]])

lemma first_of_None_iff: "first_of xs = None \<longleftrightarrow> xs = []"
  by (simp add: first_of_def split: list.splits)

lemma find_desc_None_iff:
  assumes "plain (ascii name)" and "ns = root_namespace root"
  shows "find_desc (qname ns name) e = None \<longleftrightarrow> \<not> has_below ns name e"
  by (auto simp: find_desc_def findall_desc_named [OF assms] first_of_None_iff filter_empty_conv
        has_below_def)

subsection \<open>Evaluation\<close>

text \<open>The equations that evaluate the parser on a concrete document.\<close>

lemmas fb2_defs =
  ascii_def isspace_def strip_def endswith_def str_of_nat.simps fulltext_def
  findall_child_def findall_desc_def first_of_def find_child_def find_desc_def qname_def
  chapter_title_text_def glava_def content_paragraphs_def chapter_content_text_def
  process_fb2_section_def fb2_sections_def extract_fb2_chapters_def
  find_text_def find_all_text_def bez_nazvaniya_def author_name_def annotation_text_def
  extract_fb2_metadata_def validate_fb2_structure_def str_find_def slice_from_1_def
  root_namespace_def parse_fb2_tree_def parse_fb2_content_def
  candidate_sections_def emitted_def is_named_def plain_def has_below_def has_element_def
  is_wildcard_tag_def prepare_tag_def child_match_def desc_match_def
  el_def leaf_def fb2_def Let_def metadata.extend_def

subsection \<open>Scenarios of the specification\<close>

lemma scenario_one_section:
  "parse_fb2_content (Inr doc_sample) =
     Inr \<lparr>book_title = ascii ''Sample'', description = [], authors = [], genres = [],
          language = ascii ''ru'',
          chapters = [\<lparr>title = ascii ''Intro'', content = ascii ''Hello world.'', order = 1\<rparr>]\<rparr>"
  by (simp add: fb2_defs doc_sample_def)

lemma scenario_one_section_namespaced:
  "root_namespace doc_sample_ns = Some fb_uri \<and>
   parse_fb2_content (Inr doc_sample_ns) =
     Inr \<lparr>book_title = ascii ''Sample'', description = [], authors = [], genres = [],
          language = ascii ''ru'',
          chapters = [\<lparr>title = ascii ''Intro'', content = ascii ''Hello world.'', order = 1\<rparr>]\<rparr>"
  by (simp add: fb2_defs doc_sample_ns_def nel_def nleaf_def fb_uri_def)

lemma scenario_inline_markup:
  "chapter_content_text (el ''section'' [p_inline]) None = ascii ''Hello bold world''"
  by (simp add: fb2_defs p_inline_def)

lemma scenario_malformed:
  "parse_fb2_content (Inl (ParseError msg)) = Inl (ValueError (bad_xml_msg @ msg))"
  by (simp add: parse_fb2_content_def)

lemma scenario_undecodable:
  "parse_fb2_content (Inl (OtherException msg)) = Inl (ValueError (parse_error_msg @ msg))"
  by (simp add: parse_fb2_content_def)

section \<open>The claims\<close>

text \<open>
  C1 (as the code has it). When the parse succeeds, the order of every emitted chapter
  is the 1-based position of its section among all candidate sections, dropped ones
  included: the order values are strictly increasing in document order, and they are
  exactly 1..N when no candidate section is dropped.
\<close>

theorem chapter_orders_are_positions:
  assumes "parse_fb2_content (Inr root) = Inr book"
    and "ns = root_namespace root" and "S = candidate_sections root ns"
  shows "map order (chapters book) = map Suc (filter (\<lambda>i. emitted (S ! i) ns) [0..<length S]) \<and>
         sorted_wrt (<) (map order (chapters book)) \<and>
         ((\<forall>s\<in>set S. emitted s ns) \<longrightarrow>
            map order (chapters book) = [1..<Suc (length (chapters book))])"
proof -
  have ch: "chapters book = chapters_from ns 1 S"
    using assms parse_fb2_content_chapters extract_candidates by simp
  have pos: "map order (chapters book) = map Suc (filter (\<lambda>i. emitted (S ! i) ns) [0..<length S])"
    by (simp add: ch order_chapters_from)
  have inc: "sorted_wrt (<) (map order (chapters book))"
    by (simp add: ch sorted_orders)
  have all: "map order (chapters book) = [1..<Suc (length (chapters book))]"
    if a: "\<forall>s\<in>set S. emitted s ns"
  proof -
    have f: "filter (\<lambda>i. emitted (S ! i) ns) [0..<length S] = [0..<length S]"
      using a by (simp add: filter_id_conv)
    have "length (chapters book) = length (map order (chapters book))" by simp
    also have "\<dots> = length S" by (simp add: pos f)
    finally have len: "length (chapters book) = length S" .
    show ?thesis by (simp add: pos f len map_Suc_upt)
  qed
  show ?thesis using pos inc all by blast
qed

theorem chapter_orders_are_positions_witness:
  "parse_fb2_content (Inr doc_two) =
     Inr \<lparr>book_title = ascii ''Sample'', description = [], authors = [], genres = [],
          language = ascii ''ru'',
          chapters = [\<lparr>title = glava @ ascii ''1'', content = ascii ''One'', order = 1\<rparr>,
                      \<lparr>title = glava @ ascii ''2'', content = ascii ''Two'', order = 2\<rparr>]\<rparr> \<and>
   map order (extract_fb2_chapters doc_two None) = [1, 2]"
proof -
  have p: "parse_fb2_content (Inr doc_two) =
     Inr \<lparr>book_title = ascii ''Sample'', description = [], authors = [], genres = [],
          language = ascii ''ru'',
          chapters = [\<lparr>title = glava @ ascii ''1'', content = ascii ''One'', order = 1\<rparr>,
                      \<lparr>title = glava @ ascii ''2'', content = ascii ''Two'', order = 2\<rparr>]\<rparr>"
    by (simp add: fb2_defs doc_two_def)
  have n: "None = root_namespace doc_two"
    by (simp add: fb2_defs doc_two_def)
  have e: "\<forall>s\<in>set (candidate_sections doc_two None). emitted s None"
    by (simp add: fb2_defs doc_two_def)
  have x: "extract_fb2_chapters doc_two None =
     [\<lparr>title = glava @ ascii ''1'', content = ascii ''One'', order = 1\<rparr>,
      \<lparr>title = glava @ ascii ''2'', content = ascii ''Two'', order = 2\<rparr>]"
    using parse_fb2_content_chapters [OF p] n by simp
  have "(\<forall>s\<in>set (candidate_sections doc_two None). emitted s None) \<longrightarrow>
          map order (extract_fb2_chapters doc_two None) =
            [1..<Suc (length (extract_fb2_chapters doc_two None))]"
    using chapter_orders_are_positions [OF p n refl] by (simp only: x chapters_def) simp
  then have "map order (extract_fb2_chapters doc_two None) =
               [1..<Suc (length (extract_fb2_chapters doc_two None))]"
    using e by blast
  then have "map order (extract_fb2_chapters doc_two None) = [1, 2]"
    by (simp add: x)
  then show ?thesis using p by simp
qed

text \<open>
  C1 as stated fails: the first section of \<open>doc_gap\<close> is dropped, and the one emitted
  chapter has order 2, where the claim requires the orders 1..N with N = 1.
\<close>

theorem chapter_orders_gapless_counterexample:
  "parse_fb2_content (Inr doc_gap) =
     Inr \<lparr>book_title = ascii ''Sample'', description = [], authors = [], genres = [],
          language = ascii ''ru'',
          chapters = [\<lparr>title = glava @ ascii ''2'', content = ascii ''Hello'', order = 2\<rparr>]\<rparr> \<and>
   map order (chapters (projr (parse_fb2_content (Inr doc_gap)))) \<noteq>
     [1..<Suc (length (chapters (projr (parse_fb2_content (Inr doc_gap)))))]"
proof -
  have p: "parse_fb2_content (Inr doc_gap) =
     Inr \<lparr>book_title = ascii ''Sample'', description = [], authors = [], genres = [],
          language = ascii ''ru'',
          chapters = [\<lparr>title = glava @ ascii ''2'', content = ascii ''Hello'', order = 2\<rparr>]\<rparr>"
    by (simp add: fb2_defs doc_gap_def)
  show ?thesis unfolding p by simp
qed

text \<open>
  Emission and content. A section is emitted if and only if the content that the parser
  computes for it is non-empty; that content comes from the children the parser selects,
  those whose tag ends in the letter p. The contents of the emitted chapters are those of
  the candidate sections with non-empty content, in order, and none is empty.
\<close>

lemma emitted_iff_selected_content:
  "(process_fb2_section s ns k \<noteq> None \<longleftrightarrow>
      strip (join (ascii [CHR 0x0A, CHR 0x0A]) (map fulltext (content_paragraphs s ns))) \<noteq> []) \<and>
   (process_fb2_section s ns k \<noteq> None \<longleftrightarrow> chapter_content_text s ns \<noteq> []) \<and>
   map content (extract_fb2_chapters root ns) =
     map (\<lambda>s. chapter_content_text s ns)
       (filter (\<lambda>s. chapter_content_text s ns \<noteq> []) (candidate_sections root ns)) \<and>
   (\<forall>c\<in>set (extract_fb2_chapters root ns). content c \<noteq> [])"
proof -
  have e: "emitted s ns \<longleftrightarrow> chapter_content_text s ns \<noteq> []" for s
    by (simp add: emitted_def content_Nil_iff)
  have a: "process_fb2_section s ns k \<noteq> None \<longleftrightarrow>
      strip (join (ascii [CHR 0x0A, CHR 0x0A]) (map fulltext (content_paragraphs s ns))) \<noteq> []"
    by (simp only: process_Some_iff emitted_def content_empty_iff joined_fulltext_empty_iff)
  have b: "process_fb2_section s ns k \<noteq> None \<longleftrightarrow> chapter_content_text s ns \<noteq> []"
    by (simp only: process_Some_iff e)
  have c: "map content (extract_fb2_chapters root ns) =
     map (\<lambda>s. chapter_content_text s ns)
       (filter (\<lambda>s. chapter_content_text s ns \<noteq> []) (candidate_sections root ns))"
    by (simp only: extract_candidates content_chapters_from e)
  have "\<forall>x\<in>set (map content (extract_fb2_chapters root ns)). x \<noteq> []"
    unfolding c by auto
  then have d: "\<forall>c\<in>set (extract_fb2_chapters root ns). content c \<noteq> []" by simp
  show ?thesis using a b c d by blast
qed

text \<open>
  C4 fails on \<open>doc_no_paragraph\<close>: its section has no paragraph child, so the content of
  the claim is empty and no chapter may be emitted. The parser takes every child whose tag
  ends in the letter p, here \<open>sup\<close> and \<open>stamp\<close>, and emits a chapter with their texts.
\<close>

theorem non_paragraph_children_emitted:
  "findall_child (ascii ''p'') (el ''section'' [leaf ''sup'' ''1'', leaf ''stamp'' ''2'']) = [] \<and>
   extract_fb2_chapters doc_no_paragraph None =
     [\<lparr>title = glava @ ascii ''1'', content = ascii ''1'' @ [10, 10] @ ascii ''2'', order = 1\<rparr>]"
  by (simp add: fb2_defs doc_no_paragraph_def)

text \<open>
  The fallback title carries the position of the section among all the candidates:
  an emitted section at index \<open>i\<close> (from 0) whose title text is empty is titled with
  the number \<open>i + 1\<close>, whatever happened to the sections before it.
\<close>

lemma title_fallback_position:
  "i < length S \<Longrightarrow> emitted (S ! i) ns \<Longrightarrow> chapter_title_text (S ! i) ns = [] \<Longrightarrow>
     \<lparr>title = glava @ str_of_nat (k + i), content = chapter_content_text (S ! i) ns,
      order = k + i\<rparr> \<in> set (chapters_from ns k S)"
proof (induction S arbitrary: k i)
  case Nil
  then show ?case by simp
next
  case (Cons s S)
  show ?case
  proof (cases i)
    case 0
    then have "process_fb2_section s ns k =
        Some \<lparr>title = glava @ str_of_nat k, content = chapter_content_text s ns, order = k\<rparr>"
      using Cons.prems by (simp add: process_fb2_section_def emitted_def Let_def)
    then show ?thesis using 0 by simp
  next
    case (Suc j)
    then have "\<lparr>title = glava @ str_of_nat (Suc k + j), content = chapter_content_text (S ! j) ns,
                order = Suc k + j\<rparr> \<in> set (chapters_from ns (Suc k) S)"
      using Cons.prems by (intro Cons.IH) simp_all
    then show ?thesis using Suc by (simp split: option.splits)
  qed
qed

text \<open>
  C2 fails on \<open>doc_blank_title\<close>: the title of its section has two paragraphs of blank
  text. Their stripped texts are joined with a space and the result is not trimmed, so
  the title text is one space: empty after trimming, yet the chapter is titled with
  that space and not with the fallback title of position 1.
\<close>

theorem blank_title_kept:
  "strip (chapter_title_text
            (el ''section'' [el ''title'' [leaf ''p'' '' '', leaf ''p'' '' ''], leaf ''p'' ''x''])
            None) = [] \<and>
   extract_fb2_chapters doc_blank_title None =
     [\<lparr>title = ascii '' '', content = ascii ''x'', order = 1\<rparr>] \<and>
   ascii '' '' \<noteq> glava @ str_of_nat 1"
  by (simp add: fb2_defs doc_blank_title_def)


subsection \<open>The pipeline\<close>

lemma parse_fb2_content_fields:
  assumes "parse_fb2_content (Inr root) = Inr book" and "ns = root_namespace root"
    and "first_of (filter (\<lambda>d. is_named ns ''title-info'' (tag d)) (iter_desc root)) = Some title_info"
  shows "book_title book = find_text ns title_info ''book-title'' bez_nazvaniya"
    and "genres book = find_all_text ns title_info ''genre''"
    and "language book = find_text ns title_info ''lang'' (ascii ''ru'')"
proof -
  have f: "find_desc (qname ns ''title-info'') root = Some title_info"
    using assms(3) by (simp add: find_desc_def findall_desc_named [OF plain_names(1) assms(2)])
  show "book_title book = find_text ns title_info ''book-title'' bez_nazvaniya"
    and "genres book = find_all_text ns title_info ''genre''"
    and "language book = find_text ns title_info ''lang'' (ascii ''ru'')"
    using assms(1,2) f
    by (auto simp: parse_fb2_content_def parse_fb2_tree_def extract_fb2_metadata_def Let_def
          metadata.extend_def split: sum.splits error.splits option.splits)
qed

lemma find_text_cases:
  assumes "plain (ascii path)" and "ns = root_namespace root"
  shows "find_text ns e path d =
     (case filter (\<lambda>c. is_named ns path (tag c)) (children e) of
        [] \<Rightarrow> d
      | found # _ \<Rightarrow> (case etext found of None \<Rightarrow> d | Some t \<Rightarrow> if t = [] then d else strip t))"
  by (simp add: find_text_def find_child_def findall_child_named [OF assms] first_of_def
        split: list.splits option.splits)

text \<open>
  C3 (as the code has it). A document with no title-info element below its root, or no
  body element below its root, does not parse: the result is the error whose message ends
  with the name of the first of the two that is missing below the root (title-info before
  body), and no record is returned.
\<close>

theorem missing_required_element:
  assumes "ns = root_namespace root"
    and "\<not> has_below ns ''title-info'' root \<or> \<not> has_below ns ''body'' root"
    and "name = (if has_below ns ''title-info'' root then ''body'' else ''title-info'')"
  shows "parse_fb2_content (Inr root) =
           Inl (ValueError (parse_error_msg @ corrupt_msg @ ascii name)) \<and>
         \<not> has_below ns name root"
proof (cases "has_below ns ''title-info'' root")
  case True
  then have b: "\<not> has_below ns ''body'' root" using assms(2) by blast
  have "find_desc (qname ns ''title-info'') root \<noteq> None"
    using True find_desc_None_iff [OF plain_names(1) assms(1)] by blast
  moreover have "find_desc (qname ns ''body'') root = None"
    using b find_desc_None_iff [OF plain_names(2) assms(1)] by blast
  ultimately have "parse_fb2_content (Inr root) =
      Inl (ValueError (parse_error_msg @ corrupt_msg @ ascii ''body''))"
    using assms(1)
    by (auto simp: parse_fb2_content_def parse_fb2_tree_def validate_fb2_structure_def Let_def)
  then show ?thesis using True b assms(3) by simp
next
  case False
  then have "find_desc (qname ns ''title-info'') root = None"
    using find_desc_None_iff [OF plain_names(1) assms(1)] by blast
  then have "parse_fb2_content (Inr root) =
      Inl (ValueError (parse_error_msg @ corrupt_msg @ ascii ''title-info''))"
    using assms(1)
    by (simp add: parse_fb2_content_def parse_fb2_tree_def validate_fb2_structure_def Let_def)
  then show ?thesis using False assms(3) by simp
qed

theorem missing_required_element_witness:
  "parse_fb2_content (Inr doc_no_title_info) =
     Inl (ValueError (parse_error_msg @ corrupt_msg @ ascii ''title-info'')) \<and>
   parse_fb2_content (Inr doc_no_body) =
     Inl (ValueError (parse_error_msg @ corrupt_msg @ ascii ''body''))"
proof -
  have n1: "None = root_namespace doc_no_title_info" and n2: "None = root_namespace doc_no_body"
    by (simp_all add: fb2_defs doc_no_title_info_def doc_no_body_def)
  have t1: "\<not> has_below None ''title-info'' doc_no_title_info"
    by (simp add: fb2_defs doc_no_title_info_def)
  have t2: "has_below None ''title-info'' doc_no_body"
    by (simp add: fb2_defs doc_no_body_def)
  have b2: "\<not> has_below None ''body'' doc_no_body"
    by (simp add: fb2_defs doc_no_body_def)
  have h1: "\<not> has_below None ''title-info'' doc_no_title_info \<or>
            \<not> has_below None ''body'' doc_no_title_info"
    using t1 by blast
  have h2: "\<not> has_below None ''title-info'' doc_no_body \<or> \<not> has_below None ''body'' doc_no_body"
    using b2 by blast
  show ?thesis
    using missing_required_element [OF n1 h1 refl] missing_required_element [OF n2 h2 refl] t1 t2
    by simp
qed

text \<open>
  C3 as stated fails on \<open>doc_root_title_info\<close>: the tree has a title-info element, its
  root, and no body element. The search for title-info runs below the root, so the message
  of the error names title-info, which is present, and not body, which is missing.
\<close>

theorem root_title_info_counterexample:
  "has_element None ''title-info'' doc_root_title_info \<and>
   \<not> has_element None ''body'' doc_root_title_info \<and>
   parse_fb2_content (Inr doc_root_title_info) =
     Inl (ValueError (parse_error_msg @ corrupt_msg @ ascii ''title-info'')) \<and>
   parse_error_msg @ corrupt_msg @ ascii ''title-info'' \<noteq>
     parse_error_msg @ corrupt_msg @ ascii ''body''"
  by (simp add: fb2_defs doc_root_title_info_def corrupt_msg_def parse_error_msg_def)

text \<open>
  C6 fails on \<open>doc_blank_book_title\<close>: the text of its book-title is two spaces. The
  lookup tests the text before stripping it, so the title of the record is the empty
  string and not the default title.
\<close>

theorem blank_book_title_kept:
  "parse_fb2_content (Inr doc_blank_book_title) =
     Inr \<lparr>book_title = [], description = [], authors = [], genres = [], language = ascii ''ru'',
          chapters = [\<lparr>title = glava @ ascii ''1'', content = ascii ''Hello'', order = 1\<rparr>]\<rparr> \<and>
   [] \<noteq> bez_nazvaniya"
  by (simp add: fb2_defs doc_blank_book_title_def)

text \<open>
  What the code does for the title: the default when title-info has no book-title child or
  the first one has no text, and the stripped text of the first one otherwise.
\<close>

lemma book_title_cases:
  assumes "parse_fb2_content (Inr root) = Inr book" and "ns = root_namespace root"
    and "first_of (filter (\<lambda>d. is_named ns ''title-info'' (tag d)) (iter_desc root)) = Some title_info"
  shows "book_title book =
     (case filter (\<lambda>c. is_named ns ''book-title'' (tag c)) (children title_info) of
        [] \<Rightarrow> bez_nazvaniya
      | found # _ \<Rightarrow>
          (case etext found of None \<Rightarrow> bez_nazvaniya
           | Some t \<Rightarrow> if t = [] then bez_nazvaniya else strip t))"
  using parse_fb2_content_fields(1) [OF assms]
  by (simp add: find_text_cases [OF plain_names(6) assms(2)])

text \<open>
  C7 (as the code has it). When title-info, the first one below the root, has no lang child,
  the language of the record is "ru"; when its first lang child has non-empty text, the
  language is that text, trimmed. Later lang children are not read: when the first one has
  no text the language is "ru".
\<close>

theorem language_of_first_lang:
  assumes "parse_fb2_content (Inr root) = Inr book" and "ns = root_namespace root"
    and "first_of (filter (\<lambda>d. is_named ns ''title-info'' (tag d)) (iter_desc root)) = Some title_info"
    and "langs = filter (\<lambda>c. is_named ns ''lang'' (tag c)) (children title_info)"
  shows "(langs = [] \<longrightarrow> language book = ascii ''ru'') \<and>
         (\<forall>l rest t. langs = l # rest \<and> etext l = Some t \<and> t \<noteq> [] \<longrightarrow> language book = strip t) \<and>
         (\<forall>l rest. langs = l # rest \<and> \<not> truthy (etext l) \<longrightarrow> language book = ascii ''ru'')"
proof -
  have l: "language book =
     (case langs of
        [] \<Rightarrow> ascii ''ru''
      | found # _ \<Rightarrow> (case etext found of None \<Rightarrow> ascii ''ru''
                      | Some t \<Rightarrow> if t = [] then ascii ''ru'' else strip t))"
    using parse_fb2_content_fields(3) [OF assms(1-3)]
    by (simp add: find_text_cases [OF plain_names(5) assms(2)] assms(4))
  show ?thesis unfolding l by (auto split: option.splits)
qed

theorem language_of_first_lang_witness:
  "language (projr (parse_fb2_content (Inr doc_sample))) = ascii ''ru'' \<and>
   language (projr (parse_fb2_content (Inr doc_lang))) = ascii ''en'' \<and>
   language (projr (parse_fb2_content (Inr doc_two_lang))) = ascii ''ru''"
proof -
  have p1: "parse_fb2_content (Inr doc_sample) = Inr (projr (parse_fb2_content (Inr doc_sample)))"
    and p2: "parse_fb2_content (Inr doc_lang) = Inr (projr (parse_fb2_content (Inr doc_lang)))"
    and p3: "parse_fb2_content (Inr doc_two_lang) = Inr (projr (parse_fb2_content (Inr doc_two_lang)))"
    by (simp_all add: fb2_defs doc_sample_def doc_lang_def doc_two_lang_def)
  have n1: "None = root_namespace doc_sample" and n2: "None = root_namespace doc_lang"
    and n3: "None = root_namespace doc_two_lang"
    by (simp_all add: fb2_defs doc_sample_def doc_lang_def doc_two_lang_def)
  have t1: "first_of (filter (\<lambda>d. is_named None ''title-info'' (tag d)) (iter_desc doc_sample)) =
              Some (el ''title-info'' [leaf ''book-title'' ''Sample''])"
    and t2: "first_of (filter (\<lambda>d. is_named None ''title-info'' (tag d)) (iter_desc doc_lang)) =
              Some (el ''title-info'' [leaf ''book-title'' ''Sample'', leaf ''lang'' '' en ''])"
    and t3: "first_of (filter (\<lambda>d. is_named None ''title-info'' (tag d)) (iter_desc doc_two_lang)) =
              Some (el ''title-info''
                      [leaf ''book-title'' ''Sample'', el ''lang'' [], leaf ''lang'' ''de''])"
    by (simp_all add: fb2_defs doc_sample_def doc_lang_def doc_two_lang_def)
  have l1: "[] = filter (\<lambda>c. is_named None ''lang'' (tag c))
                   (children (el ''title-info'' [leaf ''book-title'' ''Sample'']))"
    by (simp add: fb2_defs)
  have l2: "[leaf ''lang'' '' en ''] = filter (\<lambda>c. is_named None ''lang'' (tag c))
              (children (el ''title-info'' [leaf ''book-title'' ''Sample'', leaf ''lang'' '' en '']))"
    and e2: "etext (leaf ''lang'' '' en '') = Some (ascii '' en '') \<and> ascii '' en '' \<noteq> [] \<and>
             strip (ascii '' en '') = ascii ''en''"
    by (simp_all add: fb2_defs)
  have l3: "[el ''lang'' [], leaf ''lang'' ''de''] = filter (\<lambda>c. is_named None ''lang'' (tag c))
              (children (el ''title-info''
                           [leaf ''book-title'' ''Sample'', el ''lang'' [], leaf ''lang'' ''de'']))"
    and e3: "\<not> truthy (etext (el ''lang'' []))"
    by (simp_all add: fb2_defs)
  have "language (projr (parse_fb2_content (Inr doc_sample))) = ascii ''ru''"
    using language_of_first_lang [OF p1 n1 t1 l1] by blast
  moreover have "language (projr (parse_fb2_content (Inr doc_lang))) = strip (ascii '' en '')"
    using language_of_first_lang [OF p2 n2 t2 l2] e2 by blast
  moreover have "language (projr (parse_fb2_content (Inr doc_two_lang))) = ascii ''ru''"
    using language_of_first_lang [OF p3 n3 t3 l3] e3 by blast
  ultimately show ?thesis using e2 by simp
qed

text \<open>
  C7 as stated fails on \<open>doc_two_lang\<close>: title-info has a lang child with the non-empty
  text "de", after a lang child without text; the language of the record is "ru".
\<close>

theorem second_lang_counterexample:
  "parse_fb2_content (Inr doc_two_lang) =
     Inr \<lparr>book_title = ascii ''Sample'', description = [], authors = [], genres = [],
          language = ascii ''ru'',
          chapters = [\<lparr>title = glava @ ascii ''1'', content = ascii ''Hello'', order = 1\<rparr>]\<rparr> \<and>
   findall_child (ascii ''lang'') (the (find_desc (ascii ''title-info'') doc_two_lang)) =
     [el ''lang'' [], leaf ''lang'' ''de''] \<and>
   etext (leaf ''lang'' ''de'') = Some (ascii ''de'') \<and>
   language (projr (parse_fb2_content (Inr doc_two_lang))) \<noteq> strip (ascii ''de'')"
  by (simp add: fb2_defs doc_two_lang_def)

text \<open>
  C8 (as the code has it). The genres field is the space-joined list, in document order
  and without deduplication, of the trimmed texts of the genre elements that are
  children of title-info and have text; genre elements deeper in title-info are not read.
\<close>

theorem genres_of_children:
  assumes "parse_fb2_content (Inr root) = Inr book" and "ns = root_namespace root"
    and "first_of (filter (\<lambda>d. is_named ns ''title-info'' (tag d)) (iter_desc root)) = Some title_info"
  shows "genres book =
           join (ascii '' '')
             (map (\<lambda>g. strip (the (etext g)))
                (filter (\<lambda>g. truthy (etext g))
                   (filter (\<lambda>c. is_named ns ''genre'' (tag c)) (children title_info))))"
  using parse_fb2_content_fields(2) [OF assms]
  by (simp add: find_all_text_def findall_child_named [OF plain_names(4) assms(2)])

theorem genres_of_children_witness:
  "genres (projr (parse_fb2_content (Inr doc_genres))) = ascii ''prose sf prose'' \<and>
   genres (projr (parse_fb2_content (Inr doc_star))) = ascii ''x y''"
proof -
  have p: "parse_fb2_content (Inr doc_genres) = Inr (projr (parse_fb2_content (Inr doc_genres)))"
    by (simp add: fb2_defs doc_genres_def)
  have n: "None = root_namespace doc_genres"
    by (simp add: fb2_defs doc_genres_def)
  have t: "first_of (filter (\<lambda>d. is_named None ''title-info'' (tag d)) (iter_desc doc_genres)) =
      Some (el ''title-info''
              [leaf ''genre'' '' prose '', el ''genre'' [], leaf ''genre'' ''sf'',
               leaf ''genre'' ''prose'', el ''extra'' [leaf ''genre'' ''poetry'']])"
    by (simp add: fb2_defs doc_genres_def)
  have ps: "parse_fb2_content (Inr doc_star) = Inr (projr (parse_fb2_content (Inr doc_star)))"
    by (simp add: fb2_defs doc_star_def oel_def oleaf_def)
  have ns: "Some (ascii ''*'') = root_namespace doc_star"
    by (simp add: fb2_defs doc_star_def oel_def oleaf_def)
  have ts: "first_of (filter (\<lambda>d. is_named (Some (ascii ''*'')) ''title-info'' (tag d))
                        (iter_desc doc_star)) =
      Some (oel ''other'' ''title-info''
              [oleaf ''other'' ''genre'' ''x'', oleaf ''*'' ''genre'' ''y'',
               oel ''other'' ''lang'' [], oleaf ''*'' ''lang'' ''de''])"
    by (simp add: fb2_defs doc_star_def oel_def oleaf_def)
  have "genres (projr (parse_fb2_content (Inr doc_genres))) = ascii ''prose sf prose''"
    unfolding genres_of_children [OF p n t] by (simp add: fb2_defs)
  moreover have "genres (projr (parse_fb2_content (Inr doc_star))) = ascii ''x y''"
    unfolding genres_of_children [OF ps ns ts] by (simp add: fb2_defs oel_def oleaf_def)
  ultimately show ?thesis by blast
qed

text \<open>
  C8 as stated fails on \<open>doc_deep_genre\<close>: its one genre element lies two levels below
  title-info; the genres field is empty and not the text of that element.
\<close>

theorem genres_any_depth_counterexample:
  "parse_fb2_content (Inr doc_deep_genre) =
     Inr \<lparr>book_title = ascii ''Sample'', description = [], authors = [], genres = [],
          language = ascii ''ru'',
          chapters = [\<lparr>title = glava @ ascii ''1'', content = ascii ''Hello'', order = 1\<rparr>]\<rparr> \<and>
   findall_desc (ascii ''genre'') (the (find_desc (ascii ''title-info'') doc_deep_genre)) =
     [leaf ''genre'' ''poetry''] \<and>
   genres (projr (parse_fb2_content (Inr doc_deep_genre))) \<noteq> ascii ''poetry''"
  by (simp add: fb2_defs doc_deep_genre_def)


subsection \<open>Descendants and positions\<close>

lemma iter_desc_child: "c \<in> set (children e) \<Longrightarrow> c \<in> set (iter_desc e)"
  by (cases e) auto

lemma iter_desc_deeper: "c \<in> set (children e) \<Longrightarrow> d \<in> set (iter_desc c) \<Longrightarrow> d \<in> set (iter_desc e)"
  by (cases e) auto

lemma iter_desc_cases:
  "d \<in> set (iter_desc e) \<Longrightarrow> \<exists>c\<in>set (children e). d = c \<or> d \<in> set (iter_desc c)"
  by (cases e) auto

lemma iter_desc_is_desc: "d \<in> set (iter_desc e) \<Longrightarrow> is_desc d e"
proof (induction e arbitrary: d rule: iter_desc.induct)
  case (1 t x tl0 cs)
  from iter_desc_cases [OF "1.prems"] obtain c
    where c: "c \<in> set cs" "d = c \<or> d \<in> set (iter_desc c)"
    by auto
  show ?case
  proof (cases "d = c")
    case True
    then show ?thesis using c(1) by (simp add: is_desc.child)
  next
    case False
    then have "is_desc d c" using c "1.IH" by blast
    then show ?thesis using c(1) by (auto intro: is_desc.deeper)
  qed
qed

lemma is_desc_iter_desc: "is_desc d e \<Longrightarrow> d \<in> set (iter_desc e)"
  by (induction rule: is_desc.induct) (auto intro: iter_desc_child iter_desc_deeper)

lemma set_iter_desc: "d \<in> set (iter_desc e) \<longleftrightarrow> is_desc d e"
  using iter_desc_is_desc is_desc_iter_desc by blast

lemma paths_from_nonempty: "[] \<notin> set (paths_from i cs)"
  by (induction cs arbitrary: i) auto

lemma desc_paths_nonempty: "[] \<notin> set (desc_paths e)"
  by (cases e) (simp add: paths_from_nonempty)

lemma drop_eq_ConsD:
  assumes "drop i xs = c # cs"
  shows "i < length xs" and "xs ! i = c" and "drop (Suc i) xs = cs"
proof -
  show i: "i < length xs" using assms by (cases "i < length xs") auto
  from Cons_nth_drop_Suc [OF i] assms show "xs ! i = c" and "drop (Suc i) xs = cs" by auto
qed

lemma subtree_desc_paths:
  shows "map (subtree e0) (desc_paths e0) = map Some (iter_desc e0)"
    and "\<forall>e. drop i (children e) = cs \<longrightarrow>
           map (subtree e) (paths_from i cs) = map Some (concat (map (\<lambda>c. c # iter_desc c) cs))"
proof (induction e0 and i cs rule: desc_paths_paths_from.induct)
  case (1 t x tl0 cs)
  then show ?case by simp
next
  case (2 i)
  then show ?case by simp
next
  case (3 i c cs)
  show ?case
  proof (intro allI impI)
    fix e assume d: "drop i (children e) = c # cs"
    note dd = drop_eq_ConsD [OF d]
    have a: "map (subtree e) (map ((#) i) (desc_paths c)) = map (subtree c) (desc_paths c)"
      using dd by (simp add: comp_def)
    have b: "subtree e [i] = Some c" using dd by simp
    have r: "map (subtree e) (paths_from (Suc i) cs) =
               map Some (concat (map (\<lambda>c. c # iter_desc c) cs))"
      using "3.IH"(2) dd(3) by blast
    show "map (subtree e) (paths_from i (c # cs)) =
            map Some (concat (map (\<lambda>c. c # iter_desc c) (c # cs)))"
      using a b r "3.IH"(1) by simp
  qed
qed

lemma filter_link:
  "map f ps = map Some es \<Longrightarrow>
     map f (filter (\<lambda>p. case f p of None \<Rightarrow> False | Some e \<Rightarrow> P e) ps) = map Some (filter P es)"
proof (induction ps arbitrary: es)
  case Nil
  then show ?case by simp
next
  case (Cons p ps)
  then obtain e es' where es: "es = e # es'" "f p = Some e" "map f ps = map Some es'"
    by (cases es) auto
  then show ?case using Cons.IH [of es'] by simp
qed

lemma first_of_map: "first_of (map g xs) = map_option g (first_of xs)"
  by (cases xs) (simp_all add: first_of_def)

lemma named_paths_link:
  assumes "map (subtree e) ps = map Some es"
  shows "map (subtree e) (filter (named_at e ns name) ps) =
           map Some (filter (\<lambda>d. is_named ns name (tag d)) es)"
  using filter_link [OF assms, of "\<lambda>d. is_named ns name (tag d)"]
  by (simp add: named_at_def [abs_def])

lemma first_body_link:
  assumes "ns = root_namespace root"
  shows "(case first_body_path root ns of
            None \<Rightarrow> find_desc (qname ns ''body'') root = None
          | Some pb \<Rightarrow> subtree root pb = find_desc (qname ns ''body'') root \<and>
                       find_desc (qname ns ''body'') root \<noteq> None)"
proof -
  let ?F = "filter (named_at root ns ''body'') (desc_paths root)"
  have "map (subtree root) ?F = map Some (findall_desc (qname ns ''body'') root)"
    unfolding findall_desc_named [OF plain_names(2) assms]
    by (rule named_paths_link) (rule subtree_desc_paths(1))
  then have "first_of (map (subtree root) ?F) = first_of (map Some (findall_desc (qname ns ''body'') root))"
    by simp
  then have "map_option (subtree root) (first_body_path root ns) =
             map_option Some (find_desc (qname ns ''body'') root)"
    by (simp add: first_of_map first_body_path_def find_desc_def)
  then show ?thesis
    by (cases "first_body_path root ns"; cases "find_desc (qname ns ''body'') root") auto
qed

lemma subtree_append:
  "subtree e (p @ q) = (case subtree e p of None \<Rightarrow> None | Some b \<Rightarrow> subtree b q)"
  by (induction p arbitrary: e) auto

lemma subtree_child_paths:
  "map (subtree b) (map (\<lambda>i. [i]) [0..<length (children b)]) = map Some (children b)"
proof -
  have "map (subtree b) (map (\<lambda>i. [i]) [0..<length (children b)]) =
        map (\<lambda>i. Some (children b ! i)) [0..<length (children b)]"
    by simp
  also have "\<dots> = map Some (map ((!) (children b)) [0..<length (children b)])"
    by (simp add: comp_def)
  also have "\<dots> = map Some (children b)"
    by (simp only: map_nth)
  finally show ?thesis .
qed

lemma map_eq_Nil_link: "map f ps = map g es \<Longrightarrow> ps = [] \<longleftrightarrow> es = []"
proof -
  assume "map f ps = map g es"
  then have "length ps = length es" by (rule map_eq_imp_length_eq)
  then show ?thesis by auto
qed

lemma section_paths_link:
  assumes "ns = root_namespace root"
  shows "map (subtree b) (section_paths b ns) = map Some (fb2_sections b ns)"
proof -
  let ?t = "qname ns ''section''"
  let ?D = "filter (named_at b ns ''section'') (map (\<lambda>i. [i]) [0..<length (children b)])"
  have d: "map (subtree b) ?D = map Some (findall_child ?t b)"
    unfolding findall_child_named [OF plain_names(3) assms]
    by (rule named_paths_link) (rule subtree_child_paths)
  have a: "map (subtree b) (filter (named_at b ns ''section'') (desc_paths b)) =
           map Some (findall_desc ?t b)"
    unfolding findall_desc_named [OF plain_names(3) assms]
    by (rule named_paths_link) (rule subtree_desc_paths(1))
  have e: "?D = [] \<longleftrightarrow> findall_child ?t b = []"
    using d by (rule map_eq_Nil_link)
  show ?thesis
  proof (cases "?D = []")
    case True
    then show ?thesis using e a by (simp add: section_paths_def fb2_sections_def Let_def)
  next
    case False
    then show ?thesis using e d by (simp add: section_paths_def fb2_sections_def Let_def)
  qed
qed

lemma section_paths_nonempty: "[] \<notin> set (section_paths b ns)"
  by (auto simp: section_paths_def Let_def desc_paths_nonempty)

lemma candidate_paths_link:
  assumes "ns = root_namespace root"
  shows "map (subtree root) (candidate_paths root ns) = map Some (candidate_sections root ns)"
proof (cases "first_body_path root ns")
  case None
  then show ?thesis using first_body_link [OF assms]
    by (simp add: candidate_paths_def candidate_sections_def)
next
  case (Some pb)
  then obtain b where b: "subtree root pb = Some b" "find_desc (qname ns ''body'') root = Some b"
    using first_body_link [OF assms] by auto
  have "map (subtree root) (map ((@) pb) (section_paths b ns)) = map (subtree b) (section_paths b ns)"
    by (simp add: subtree_append b(1) comp_def)
  then show ?thesis using Some b
    by (simp add: candidate_paths_def candidate_sections_def section_paths_link [OF assms])
qed

lemma candidate_paths_prefix:
  assumes "p \<in> set (candidate_paths root ns)"
  shows "\<exists>pb q. first_body_path root ns = Some pb \<and> q \<noteq> [] \<and> p = pb @ q"
proof (cases "first_body_path root ns")
  case None
  then show ?thesis using assms by (simp add: candidate_paths_def)
next
  case (Some pb)
  then obtain b q where "q \<in> set (section_paths b ns)" "p = pb @ q"
    using assms by (auto simp: candidate_paths_def split: option.splits)
  moreover from this have "q \<noteq> []" using section_paths_nonempty by metis
  ultimately show ?thesis using Some by blast
qed

subsection \<open>Document order\<close>

lemma paths_from_head: "p \<in> set (paths_from k cs) \<Longrightarrow> \<exists>j q. p = j # q \<and> k \<le> j"
proof (induction cs arbitrary: k)
  case Nil
  then show ?case by simp
next
  case (Cons c cs)
  from Cons.prems consider "p = [k]" | "p \<in> (#) k ` set (desc_paths c)"
    | "p \<in> set (paths_from (Suc k) cs)"
    by auto
  then show ?case
  proof cases
    case 3
    then obtain j q where "p = j # q" "Suc k \<le> j" using Cons.IH by blast
    then show ?thesis by auto
  qed auto
qed

lemma sorted_desc_paths:
  shows "sorted_wrt doc_before (desc_paths e0)"
    and "sorted_wrt doc_before (paths_from i cs)"
proof (induction e0 and i cs rule: desc_paths_paths_from.induct)
  case (1 t x tl0 cs)
  then show ?case by simp
next
  case (2 i)
  then show ?case by simp
next
  case (3 i c cs)
  have a: "\<forall>y\<in>set (map ((#) i) (desc_paths c)). doc_before [i] y"
  proof
    fix y assume "y \<in> set (map ((#) i) (desc_paths c))"
    then obtain q where q: "y = i # q" "q \<in> set (desc_paths c)" by auto
    then have "q \<noteq> []" using desc_paths_nonempty by metis
    then show "doc_before [i] y" using q(1) by (cases q) simp_all
  qed
  have b: "sorted_wrt doc_before (map ((#) i) (desc_paths c))"
    using "3.IH"(1) by (simp add: sorted_wrt_map)
  have c: "\<forall>x\<in>set ([i] # map ((#) i) (desc_paths c)). \<forall>y\<in>set (paths_from (Suc i) cs). doc_before x y"
  proof (intro ballI)
    fix x y
    assume x: "x \<in> set ([i] # map ((#) i) (desc_paths c))" and y: "y \<in> set (paths_from (Suc i) cs)"
    from x obtain p where p: "x = i # p" by auto
    from paths_from_head [OF y] obtain j q where q: "y = j # q" "Suc i \<le> j" by blast
    show "doc_before x y" using p q by simp
  qed
  show ?case using a b c "3.IH"(2) by (auto simp: sorted_wrt_append)
qed

lemma sorted_child_paths: "sorted_wrt doc_before (map (\<lambda>i. [i]) [0..<n])"
  by (simp add: sorted_wrt_map)

lemma section_paths_sorted: "sorted_wrt doc_before (section_paths b ns)"
  by (simp add: section_paths_def Let_def sorted_wrt_filter sorted_child_paths sorted_desc_paths(1))

lemma first_of_filter_sorted:
  assumes "sorted_wrt R xs" and "first_of (filter P xs) = Some x" and "y \<in> set xs" and "P y"
  shows "y = x \<or> R x y"
proof -
  obtain rest where f: "filter P xs = x # rest"
    using assms(2) by (cases "filter P xs") (simp_all add: first_of_def)
  have "sorted_wrt R (filter P xs)" using assms(1) by (rule sorted_wrt_filter)
  then have "\<forall>z\<in>set rest. R x z" by (simp add: f)
  moreover have "y \<in> set (filter P xs)" using assms(3,4) by simp
  ultimately show ?thesis by (auto simp: f)
qed

lemma first_of_filter_mem: "first_of (filter P xs) = Some x \<Longrightarrow> x \<in> set xs \<and> P x"
proof -
  assume "first_of (filter P xs) = Some x"
  then obtain rest where "filter P xs = x # rest"
    by (cases "filter P xs") (simp_all add: first_of_def)
  then have "x \<in> set (filter P xs)" by simp
  then show ?thesis by simp
qed

lemmas path_defs =
  tag_at_def named_at_def first_body_path_def section_paths_def candidate_paths_def

text \<open>
  C5. The candidate sections of a body are its child sections when it has any, and
  otherwise all the sections below it, at any depth, in document order: they are the
  elements at the section positions, which are listed in document order. The chapters of
  the document are read from the candidate sections of its first body.
\<close>

theorem two_tier_section_search:
  assumes "ns = root_namespace root"
    and "direct = filter (\<lambda>c. is_named ns ''section'' (tag c)) (children body)"
    and "deep = filter (\<lambda>d. is_named ns ''section'' (tag d)) (iter_desc body)"
  shows "(direct \<noteq> [] \<longrightarrow> fb2_sections body ns = direct) \<and>
         (direct = [] \<longrightarrow> fb2_sections body ns = deep) \<and>
         (\<forall>d. d \<in> set deep \<longleftrightarrow> is_desc d body \<and> is_named ns ''section'' (tag d)) \<and>
         map (subtree body) (section_paths body ns) = map Some (fb2_sections body ns) \<and>
         sorted_wrt doc_before (section_paths body ns) \<and>
         (first_of (filter (\<lambda>d. is_named ns ''body'' (tag d)) (iter_desc root)) = Some body \<longrightarrow>
            extract_fb2_chapters root ns = chapters_from ns 1 (fb2_sections body ns))"
proof -
  have c: "findall_child (qname ns ''section'') body = direct"
    by (simp add: findall_child_named [OF plain_names(3) assms(1)] assms(2))
  have d: "findall_desc (qname ns ''section'') body = deep"
    by (simp add: findall_desc_named [OF plain_names(3) assms(1)] assms(3))
  have 1: "(direct \<noteq> [] \<longrightarrow> fb2_sections body ns = direct) \<and>
           (direct = [] \<longrightarrow> fb2_sections body ns = deep)"
    by (simp add: fb2_sections_def c d Let_def)
  have 2: "\<forall>d. d \<in> set deep \<longleftrightarrow> is_desc d body \<and> is_named ns ''section'' (tag d)"
    by (auto simp: assms(3) set_iter_desc)
  have 3: "extract_fb2_chapters root ns = chapters_from ns 1 (fb2_sections body ns)"
    if "first_of (filter (\<lambda>d. is_named ns ''body'' (tag d)) (iter_desc root)) = Some body"
  proof -
    have "find_desc (qname ns ''body'') root = Some body"
      using that by (simp add: find_desc_def findall_desc_named [OF plain_names(2) assms(1)])
    then show ?thesis by (simp add: extract_fb2_chapters_def)
  qed
  show ?thesis
    using 1 2 3 section_paths_link [OF assms(1)] section_paths_sorted by blast
qed

theorem two_tier_section_search_witness:
  "fb2_sections body_direct None =
     [el ''section'' [leaf ''p'' ''A'', el ''section'' [leaf ''p'' ''B'']]] \<and>
   fb2_sections body_nested None =
     [el ''section'' [leaf ''p'' ''A''], el ''section'' [leaf ''p'' ''B'']] \<and>
   section_paths body_nested None = [[0, 0, 0], [0, 0, 1]] \<and>
   extract_fb2_chapters doc_nested None =
     [\<lparr>title = glava @ ascii ''1'', content = ascii ''A'', order = 1\<rparr>,
      \<lparr>title = glava @ ascii ''2'', content = ascii ''B'', order = 2\<rparr>] \<and>
   extract_fb2_chapters doc_sample_ns (Some fb_uri) =
     [\<lparr>title = ascii ''Intro'', content = ascii ''Hello world.'', order = 1\<rparr>]"
proof -
  have n1: "None = root_namespace body_direct" and n2: "None = root_namespace doc_nested"
    and n3: "Some fb_uri = root_namespace doc_sample_ns"
    by (simp_all add: fb2_defs body_direct_def doc_nested_def doc_sample_ns_def nel_def fb_uri_def)
  have d1: "[el ''section'' [leaf ''p'' ''A'', el ''section'' [leaf ''p'' ''B'']]] =
      filter (\<lambda>c. is_named None ''section'' (tag c)) (children body_direct)"
    by (simp add: fb2_defs body_direct_def)
  have d2: "[] = filter (\<lambda>c. is_named None ''section'' (tag c)) (children body_nested)"
    by (simp add: fb2_defs body_nested_def)
  have e2: "[el ''section'' [leaf ''p'' ''A''], el ''section'' [leaf ''p'' ''B'']] =
      filter (\<lambda>d. is_named None ''section'' (tag d)) (iter_desc body_nested)"
    by (simp add: fb2_defs body_nested_def)
  have b2: "first_of (filter (\<lambda>d. is_named None ''body'' (tag d)) (iter_desc doc_nested)) =
      Some body_nested"
    by (simp add: fb2_defs doc_nested_def body_nested_def)
  have d3: "[nel ''section'' [nel ''title'' [nleaf ''p'' ''Intro''], nleaf ''p'' ''Hello world.'']] =
      filter (\<lambda>c. is_named (Some fb_uri) ''section'' (tag c))
        (children (nel ''body''
           [nel ''section'' [nel ''title'' [nleaf ''p'' ''Intro''], nleaf ''p'' ''Hello world.'']]))"
    by (simp add: fb2_defs nel_def nleaf_def fb_uri_def)
  have b3: "first_of (filter (\<lambda>d. is_named (Some fb_uri) ''body'' (tag d)) (iter_desc doc_sample_ns)) =
      Some (nel ''body''
              [nel ''section'' [nel ''title'' [nleaf ''p'' ''Intro''], nleaf ''p'' ''Hello world.'']])"
    by (simp add: fb2_defs doc_sample_ns_def nel_def nleaf_def fb_uri_def)
  have a1: "fb2_sections body_direct None =
      [el ''section'' [leaf ''p'' ''A'', el ''section'' [leaf ''p'' ''B'']]]"
    using two_tier_section_search [OF n1 d1 refl] by simp
  have a2: "fb2_sections body_nested None =
      [el ''section'' [leaf ''p'' ''A''], el ''section'' [leaf ''p'' ''B'']]"
    using two_tier_section_search [OF n2 d2 e2] by simp
  have a3: "extract_fb2_chapters doc_nested None =
      chapters_from None 1 (fb2_sections body_nested None)"
    using two_tier_section_search [OF n2 d2 e2] b2 by blast
  have a4: "fb2_sections
              (nel ''body''
                 [nel ''section'' [nel ''title'' [nleaf ''p'' ''Intro''], nleaf ''p'' ''Hello world.'']])
              (Some fb_uri) =
      [nel ''section'' [nel ''title'' [nleaf ''p'' ''Intro''], nleaf ''p'' ''Hello world.'']]"
    using two_tier_section_search [OF n3 d3 refl] by simp
  have a5: "extract_fb2_chapters doc_sample_ns (Some fb_uri) =
      chapters_from (Some fb_uri) 1
        (fb2_sections
           (nel ''body''
              [nel ''section'' [nel ''title'' [nleaf ''p'' ''Intro''], nleaf ''p'' ''Hello world.'']])
           (Some fb_uri))"
    using two_tier_section_search [OF n3 d3 refl] b3 by blast
  have s: "section_paths body_nested None = [[0, 0, 0], [0, 0, 1]]"
    by (simp add: path_defs fb2_defs body_nested_def)
  have x1: "extract_fb2_chapters doc_nested None =
     [\<lparr>title = glava @ ascii ''1'', content = ascii ''A'', order = 1\<rparr>,
      \<lparr>title = glava @ ascii ''2'', content = ascii ''B'', order = 2\<rparr>]"
    unfolding a3 a2 by (simp add: fb2_defs)
  have x2: "extract_fb2_chapters doc_sample_ns (Some fb_uri) =
     [\<lparr>title = ascii ''Intro'', content = ascii ''Hello world.'', order = 1\<rparr>]"
    unfolding a5 a4 by (simp add: fb2_defs nel_def nleaf_def fb_uri_def)
  show ?thesis using a1 a2 s x1 x2 by blast
qed

text \<open>
  C10 (as the code has it). Only the first body element in document order contributes
  chapters: the candidate sections are the elements at the candidate positions, the
  chapters are read from them, and every candidate position lies strictly below the
  position of the first body, which is the element that the lookup of body returns and
  comes before every other body below the root. A section outside the first body is never
  a candidate; a later body that lies inside the first body is not outside it.
\<close>

theorem candidates_inside_first_body:
  assumes "ns = root_namespace root"
  shows "map (subtree root) (candidate_paths root ns) = map Some (candidate_sections root ns) \<and>
         extract_fb2_chapters root ns = chapters_from ns 1 (candidate_sections root ns) \<and>
         (\<forall>p\<in>set (candidate_paths root ns).
            \<exists>pb q. first_body_path root ns = Some pb \<and> q \<noteq> [] \<and> p = pb @ q) \<and>
         (\<forall>pb. first_body_path root ns = Some pb \<longrightarrow>
            pb \<in> set (desc_paths root) \<and> named_at root ns ''body'' pb \<and>
            subtree root pb = find_desc (qname ns ''body'') root \<and>
            (\<forall>p'\<in>set (desc_paths root). named_at root ns ''body'' p' \<longrightarrow> p' = pb \<or> doc_before pb p'))"
proof -
  have a: "\<forall>p\<in>set (candidate_paths root ns).
            \<exists>pb q. first_body_path root ns = Some pb \<and> q \<noteq> [] \<and> p = pb @ q"
    using candidate_paths_prefix by blast
  have b: "pb \<in> set (desc_paths root) \<and> named_at root ns ''body'' pb \<and>
           subtree root pb = find_desc (qname ns ''body'') root \<and>
           (\<forall>p'\<in>set (desc_paths root). named_at root ns ''body'' p' \<longrightarrow> p' = pb \<or> doc_before pb p')"
    if f: "first_body_path root ns = Some pb" for pb
  proof -
    have f': "first_of (filter (named_at root ns ''body'') (desc_paths root)) = Some pb"
      using f by (simp add: first_body_path_def)
    have 1: "pb \<in> set (desc_paths root) \<and> named_at root ns ''body'' pb"
      using first_of_filter_mem [OF f'] .
    have 2: "subtree root pb = find_desc (qname ns ''body'') root"
      using first_body_link [OF assms] f by simp
    have 3: "p' = pb \<or> doc_before pb p'"
      if "p' \<in> set (desc_paths root)" "named_at root ns ''body'' p'" for p'
      using first_of_filter_sorted [OF sorted_desc_paths(1) f' that] .
    show ?thesis using 1 2 3 by blast
  qed
  show ?thesis using a b candidate_paths_link [OF assms] extract_candidates by blast
qed

theorem candidates_inside_first_body_witness:
  "first_body_path doc_notes None = Some [1] \<and>
   tag_at doc_notes [2] = Some (ascii ''body'') \<and>
   tag_at doc_notes [2, 0] = Some (ascii ''section'') \<and>
   candidate_paths doc_notes None = [[1, 0]] \<and>
   map Some (candidate_sections doc_notes None) = [subtree doc_notes [1, 0]] \<and>
   extract_fb2_chapters doc_notes None =
     [\<lparr>title = glava @ ascii ''1'', content = ascii ''Main'', order = 1\<rparr>] \<and>
   first_body_path doc_star (Some (ascii ''*'')) = Some [1] \<and>
   candidate_paths doc_star (Some (ascii ''*'')) = [[1, 0]] \<and>
   map Some (candidate_sections doc_star (Some (ascii ''*''))) = [subtree doc_star [1, 0]]"
proof -
  have n: "None = root_namespace doc_notes"
    by (simp add: fb2_defs doc_notes_def)
  have ns: "Some (ascii ''*'') = root_namespace doc_star"
    by (simp add: fb2_defs doc_star_def oel_def oleaf_def)
  have c: "candidate_paths doc_notes None = [[1, 0]]"
    by (simp add: path_defs fb2_defs doc_notes_def)
  have f: "first_body_path doc_notes None = Some [1]"
    by (simp add: path_defs fb2_defs doc_notes_def)
  have t: "tag_at doc_notes [2] = Some (ascii ''body'') \<and>
           tag_at doc_notes [2, 0] = Some (ascii ''section'')"
    by (simp add: path_defs fb2_defs doc_notes_def)
  have x: "extract_fb2_chapters doc_notes None =
     [\<lparr>title = glava @ ascii ''1'', content = ascii ''Main'', order = 1\<rparr>]"
    by (simp add: fb2_defs doc_notes_def)
  have cs: "candidate_paths doc_star (Some (ascii ''*'')) = [[1, 0]]"
    by (simp add: path_defs fb2_defs doc_star_def oel_def oleaf_def)
  have fs: "first_body_path doc_star (Some (ascii ''*'')) = Some [1]"
    by (simp add: path_defs fb2_defs doc_star_def oel_def oleaf_def)
  have "map Some (candidate_sections doc_notes None) = map (subtree doc_notes) [[1, 0]]"
    using candidates_inside_first_body [OF n] by (simp only: c)
  moreover have "map Some (candidate_sections doc_star (Some (ascii ''*''))) =
                 map (subtree doc_star) [[1, 0]]"
    using candidates_inside_first_body [OF ns] by (simp only: cs)
  ultimately show ?thesis using c f t x cs fs by simp
qed

text \<open>
  C10 as stated fails on \<open>doc_body_in_body\<close>: the first body has no child section and
  holds a second body; the section inside that second body is found by the descendant
  search and emitted.
\<close>

theorem later_body_sections_counterexample:
  "first_body_path doc_body_in_body None = Some [1] \<and>
   tag_at doc_body_in_body [1, 0, 0] = Some (ascii ''body'') \<and>
   tag_at doc_body_in_body [1, 0, 0, 0] = Some (ascii ''section'') \<and>
   [1, 0, 0, 0] \<in> set (candidate_paths doc_body_in_body None) \<and>
   extract_fb2_chapters doc_body_in_body None =
     [\<lparr>title = glava @ ascii ''1'', content = ascii ''Inner'', order = 1\<rparr>]"
  by (simp add: path_defs fb2_defs doc_body_in_body_def)

end
